theory Spec2Isabelle
  imports Main "HOL-Library.Word"
begin

unbundle bit_operations_syntax

section \<open>Machine types and return codes\<close>

type_synonym u8 = "8 word"
type_synonym u16 = "16 word"

text \<open>
  The C functions return \<open>int\<close>: \<open>enum MSP_ERRORS\<close> of msplink.h, and callers test
  \<open>ret < 0\<close>. The codes are kept as integers so that those tests read as in the source.
\<close>

definition MSP_OK :: int where "MSP_OK = 0"
definition MSP_SYSCALL_FAIL :: int where "MSP_SYSCALL_FAIL = -1"
definition MSP_LIB_INTERNAL_ERROR :: int where "MSP_LIB_INTERNAL_ERROR = -2"
definition MSP_TX_FAIL :: int where "MSP_TX_FAIL = -3"
definition MSP_RX_FAIL :: int where "MSP_RX_FAIL = -4"
definition MSP_RX_SYNC_NOT_FOUND :: int where "MSP_RX_SYNC_NOT_FOUND = -5"
definition MSP_RX_CHECKSUM_MISMATCH :: int where "MSP_RX_CHECKSUM_MISMATCH = -6"
definition MSP_OUT_OF_MEMORY :: int where "MSP_OUT_OF_MEMORY = -7"
definition MSP_RX_CLIENT_NACK :: int where "MSP_RX_CLIENT_NACK = -8"

lemmas MSP_ERRORS_defs =
  MSP_OK_def MSP_SYSCALL_FAIL_def MSP_LIB_INTERNAL_ERROR_def MSP_TX_FAIL_def MSP_RX_FAIL_def
  MSP_RX_SYNC_NOT_FOUND_def MSP_RX_CHECKSUM_MISMATCH_def MSP_OUT_OF_MEMORY_def
  MSP_RX_CLIENT_NACK_def

definition READ_BUFFER_SIZE :: nat where "READ_BUFFER_SIZE = 1024"
definition MSP_RETRY_DEFAULT :: int where "MSP_RETRY_DEFAULT = 3"
definition MAX_SYNC_SEARCH_BYTES :: nat where "MAX_SYNC_SEARCH_BYTES = 50"

text \<open>parse.h: the version and direction characters, as the bytes they are on the wire.\<close>

definition MSP_V1 :: u8 where "MSP_V1 = 0x4D"
definition MSP_V2 :: u8 where "MSP_V2 = 0x58"
definition MSP_DIR_TOCLIENT :: u8 where "MSP_DIR_TOCLIENT = 0x3C"
definition MSP_DIR_TOHOST :: u8 where "MSP_DIR_TOHOST = 0x3E"
definition MSP_DIR_ERROR :: u8 where "MSP_DIR_ERROR = 0x21"

section \<open>checksums.c\<close>

definition CRC8_DVB_S2_LUT :: "u8 list" where
  "CRC8_DVB_S2_LUT = [
    0x00, 0xd5, 0x7f, 0xaa, 0xfe, 0x2b, 0x81, 0x54,
    0x29, 0xfc, 0x56, 0x83, 0xd7, 0x02, 0xa8, 0x7d,
    0x52, 0x87, 0x2d, 0xf8, 0xac, 0x79, 0xd3, 0x06,
    0x7b, 0xae, 0x04, 0xd1, 0x85, 0x50, 0xfa, 0x2f,
    0xa4, 0x71, 0xdb, 0x0e, 0x5a, 0x8f, 0x25, 0xf0,
    0x8d, 0x58, 0xf2, 0x27, 0x73, 0xa6, 0x0c, 0xd9,
    0xf6, 0x23, 0x89, 0x5c, 0x08, 0xdd, 0x77, 0xa2,
    0xdf, 0x0a, 0xa0, 0x75, 0x21, 0xf4, 0x5e, 0x8b,
    0x9d, 0x48, 0xe2, 0x37, 0x63, 0xb6, 0x1c, 0xc9,
    0xb4, 0x61, 0xcb, 0x1e, 0x4a, 0x9f, 0x35, 0xe0,
    0xcf, 0x1a, 0xb0, 0x65, 0x31, 0xe4, 0x4e, 0x9b,
    0xe6, 0x33, 0x99, 0x4c, 0x18, 0xcd, 0x67, 0xb2,
    0x39, 0xec, 0x46, 0x93, 0xc7, 0x12, 0xb8, 0x6d,
    0x10, 0xc5, 0x6f, 0xba, 0xee, 0x3b, 0x91, 0x44,
    0x6b, 0xbe, 0x14, 0xc1, 0x95, 0x40, 0xea, 0x3f,
    0x42, 0x97, 0x3d, 0xe8, 0xbc, 0x69, 0xc3, 0x16,
    0xef, 0x3a, 0x90, 0x45, 0x11, 0xc4, 0x6e, 0xbb,
    0xc6, 0x13, 0xb9, 0x6c, 0x38, 0xed, 0x47, 0x92,
    0xbd, 0x68, 0xc2, 0x17, 0x43, 0x96, 0x3c, 0xe9,
    0x94, 0x41, 0xeb, 0x3e, 0x6a, 0xbf, 0x15, 0xc0,
    0x4b, 0x9e, 0x34, 0xe1, 0xb5, 0x60, 0xca, 0x1f,
    0x62, 0xb7, 0x1d, 0xc8, 0x9c, 0x49, 0xe3, 0x36,
    0x19, 0xcc, 0x66, 0xb3, 0xe7, 0x32, 0x98, 0x4d,
    0x30, 0xe5, 0x4f, 0x9a, 0xce, 0x1b, 0xb1, 0x64,
    0x72, 0xa7, 0x0d, 0xd8, 0x8c, 0x59, 0xf3, 0x26,
    0x5b, 0x8e, 0x24, 0xf1, 0xa5, 0x70, 0xda, 0x0f,
    0x20, 0xf5, 0x5f, 0x8a, 0xde, 0x0b, 0xa1, 0x74,
    0x09, 0xdc, 0x76, 0xa3, 0xf7, 0x22, 0x88, 0x5d,
    0xd6, 0x03, 0xa9, 0x7c, 0x28, 0xfd, 0x57, 0x82,
    0xff, 0x2a, 0x80, 0x55, 0x01, 0xd4, 0x7e, 0xab,
    0x84, 0x51, 0xfb, 0x2e, 0x7a, 0xaf, 0x05, 0xd0,
    0xad, 0x78, 0xd2, 0x07, 0x53, 0x86, 0x2c, 0xf9]"

text \<open>
  Both checksum functions walk \<open>size\<close> bytes from \<open>data\<close>; the pair (pointer, size) is
  the list of those bytes. The table index \<open>crc ^ *pos\<close> is a \<open>uint8_t\<close>, so it is always
  inside the 256-entry table.
\<close>

primrec checksum_crc8_dvb_s2 :: "u8 list \<Rightarrow> u8 \<Rightarrow> u8" where
  "checksum_crc8_dvb_s2 [] crc = crc"
| "checksum_crc8_dvb_s2 (b # data) crc =
     checksum_crc8_dvb_s2 data (CRC8_DVB_S2_LUT ! unat (crc XOR b))"

primrec checksum_xor :: "u8 list \<Rightarrow> u8 \<Rightarrow> u8" where
  "checksum_xor [] checksum = checksum"
| "checksum_xor (b # data) checksum = checksum_xor data (checksum XOR b)"

section \<open>The device handle and the kernel's side of the serial line\<close>

text \<open>
  What the kernel does at one \<open>read()\<close> call on the descriptor: bytes that reached the
  input queue since the previous call (none when the 0.1 s \<open>VTIME\<close> timeout expires
  first), or the call fails with an \<open>errno\<close>. What it does at one \<open>write()\<close> call: it
  accepts at most so many bytes, or fails.
\<close>

datatype rx_event = Arrives "u8 list" | ReadFails int
datatype tx_event = Accepts nat | WriteFails int

text \<open>
  \<open>mspdev_t\<close> of msplink.h: \<open>fd\<close>, \<open>devname\<close>, \<open>read_retries\<close>, \<open>buf\<close>,
  \<open>mspversion\<close>, \<open>device_open\<close>, \<open>errornum\<close> (the mutex is left out: the model is
  sequential). The remaining fields are the kernel's state behind \<open>fd\<close>: the input queue
  \<open>rxq\<close>, the script \<open>rx_events\<close> of what later \<open>read()\<close> calls meet (empty: nothing
  more arrives), the bytes \<open>tx\<close> accepted for output so far, the script \<open>tx_events\<close> for
  later \<open>write()\<close> calls (empty: every write is accepted whole), and the \<open>errno\<close> with
  which \<open>open\<close>, the \<open>termios\<close> calls, \<open>close\<close>, \<open>tcdrain\<close> and \<open>tcflush\<close> would fail
  (\<open>None\<close>: the call succeeds).
\<close>

record mspdev =
  fd :: int
  devname :: "string option"
  read_retries :: int
  buf :: "u8 list"
  mspversion :: int
  device_open :: int
  errornum :: int
  rxq :: "u8 list"
  rx_events :: "rx_event list"
  tx :: "u8 list"
  tx_events :: "tx_event list"
  open_errno :: "int option"
  termios_errno :: "int option"
  close_errno :: "int option"
  tcdrain_errno :: "int option"
  tcflush_errno :: "int option"

section \<open>serial.c\<close>

text \<open>
  \<open>read(fd, buf, count)\<close> with \<open>VMIN = 0\<close>: returns up to \<open>count\<close> bytes of what is
  queued, possibly none. \<open>Inl\<close> is the \<open>errno\<close> of a failed call.
\<close>

definition sys_read :: "mspdev \<Rightarrow> nat \<Rightarrow> (int + u8 list) \<times> mspdev" where
  "sys_read dev count =
     (case rx_events dev of
        [] \<Rightarrow> (Inr (take count (rxq dev)), dev\<lparr>rxq := drop count (rxq dev)\<rparr>)
      | Arrives bs # evs \<Rightarrow>
          (Inr (take count (rxq dev @ bs)),
           dev\<lparr>rxq := drop count (rxq dev @ bs), rx_events := evs\<rparr>)
      | ReadFails e # evs \<Rightarrow> (Inl e, dev\<lparr>rx_events := evs\<rparr>))"

definition sys_write :: "mspdev \<Rightarrow> u8 list \<Rightarrow> (int + nat) \<times> mspdev" where
  "sys_write dev data =
     (case tx_events dev of
        [] \<Rightarrow> (Inr (length data), dev\<lparr>tx := tx dev @ data\<rparr>)
      | Accepts k # evs \<Rightarrow>
          (Inr (min k (length data)),
           dev\<lparr>tx := tx dev @ take k data, tx_events := evs\<rparr>)
      | WriteFails e # evs \<Rightarrow> (Inl e, dev\<lparr>tx_events := evs\<rparr>))"

text \<open>
  \<open>msplink_write\<close>: one \<open>write()\<close>; a failed call stores \<open>errno\<close>, a short one is
  \<open>MSP_TX_FAIL\<close>.
\<close>

definition msplink_write :: "mspdev \<Rightarrow> u8 list \<Rightarrow> int \<times> mspdev" where
  "msplink_write dev data =
     (case sys_write dev data of
        (Inl e, dev') \<Rightarrow> (MSP_SYSCALL_FAIL, dev'\<lparr>errornum := e\<rparr>)
      | (Inr ret, dev') \<Rightarrow>
          if ret \<noteq> length data then (MSP_TX_FAIL, dev') else (MSP_OK, dev'))"

text \<open>
  \<open>msplink_read\<close>: the loop runs \<open>read_retries\<close> times at most. Each pass calls
  \<open>read()\<close> for the bytes still missing, and only then tests \<open>remaining_cnt == 0\<close>, before
  subtracting what this call returned. The bytes stored through \<open>buf\<close> so far are the
  list \<open>got\<close>; it is returned with the code, and the caller's array holds it from index 0.
\<close>

fun msplink_read_loop :: "nat \<Rightarrow> nat \<Rightarrow> mspdev \<Rightarrow> nat \<Rightarrow> u8 list \<Rightarrow> int \<times> u8 list \<times> mspdev" where
  "msplink_read_loop len 0 dev remaining_cnt got = (MSP_RX_FAIL, got, dev)"
| "msplink_read_loop len (Suc i) dev remaining_cnt got =
     (case sys_read dev remaining_cnt of
        (Inl e, dev') \<Rightarrow> (MSP_SYSCALL_FAIL, got, dev'\<lparr>errornum := e\<rparr>)
      | (Inr bytes, dev') \<Rightarrow>
          if remaining_cnt = 0 then (int len, got, dev')
          else msplink_read_loop len i dev' (remaining_cnt - length bytes) (got @ bytes))"

definition msplink_read :: "mspdev \<Rightarrow> nat \<Rightarrow> int \<times> u8 list \<times> mspdev" where
  "msplink_read dev len = msplink_read_loop len (nat (read_retries dev)) dev len []"

definition msplink_waituntilsent :: "mspdev \<Rightarrow> int \<times> mspdev" where
  "msplink_waituntilsent dev =
     (case tcdrain_errno dev of
        Some e \<Rightarrow> (MSP_SYSCALL_FAIL, dev\<lparr>errornum := e\<rparr>)
      | None \<Rightarrow> (MSP_OK, dev))"

text \<open>\<open>tcflush(fd, TCIOFLUSH)\<close> discards what is queued for input.\<close>

definition msplink_clearRxBuffer :: "mspdev \<Rightarrow> int \<times> mspdev" where
  "msplink_clearRxBuffer dev =
     (case tcflush_errno dev of
        Some e \<Rightarrow> (MSP_SYSCALL_FAIL, dev\<lparr>errornum := e\<rparr>)
      | None \<Rightarrow> (MSP_OK, dev\<lparr>rxq := []\<rparr>))"

text \<open>
  \<open>msplink_open\<close>: \<open>open()\<close> gives a descriptor (3 here) or fails; then
  \<open>set_interface_attribs\<close> configures the line or fails, the descriptor staying in
  \<open>fd\<close>. \<open>msplink_close\<close> stores what \<open>close()\<close> returned in \<open>fd\<close>.
\<close>

definition msplink_open :: "mspdev \<Rightarrow> int \<times> mspdev" where
  "msplink_open dev =
     (case open_errno dev of
        Some e \<Rightarrow> (MSP_SYSCALL_FAIL, dev\<lparr>fd := -1, errornum := e\<rparr>)
      | None \<Rightarrow>
          (case termios_errno dev of
             Some e \<Rightarrow> (MSP_SYSCALL_FAIL, dev\<lparr>fd := 3, errornum := e\<rparr>)
           | None \<Rightarrow> (MSP_OK, dev\<lparr>fd := 3\<rparr>)))"

definition msplink_close :: "mspdev \<Rightarrow> int \<times> mspdev" where
  "msplink_close dev =
     (case close_errno dev of
        Some e \<Rightarrow> (MSP_SYSCALL_FAIL, dev\<lparr>fd := -1, errornum := e\<rparr>)
      | None \<Rightarrow> (MSP_OK, dev\<lparr>fd := 0\<rparr>))"

section \<open>send.c\<close>

text \<open>
  \<open>htole16\<close> into a two-byte union and \<open>le16toh\<close> out of one: the first byte in
  memory is the low one, whatever the host's byte order.
\<close>

definition htole16 :: "u16 \<Rightarrow> u8 list" where
  "htole16 v = [ucast v, ucast (drop_bit 8 v)]"

definition le16toh :: "u8 \<Rightarrow> u8 \<Rightarrow> u16" where
  "le16toh b0 b1 = push_bit 8 (ucast b1) OR ucast b0"

text \<open>
  \<open>send_V1(mdev, cmd, payload, payload_len)\<close>. The pointer \<open>payload\<close> with
  \<open>payload_len\<close> is the list \<open>take (unat payload_len) payload\<close>. The checksum starts as
  \<open>payload_len ^ cmd\<close> stored into a \<open>uint8_t\<close>: the low byte of the 16-bit length,
  not the size byte written into the header.
\<close>

definition send_V1 :: "mspdev \<Rightarrow> u8 \<Rightarrow> u8 list \<Rightarrow> u16 \<Rightarrow> int \<times> mspdev" where
  "send_V1 mdev cmd payload payload_len =
     (let buf = [0x24, 0x4D, 0x3C,
                 (if 254 < unat payload_len then 255 else ucast payload_len), cmd];
          checksum = (ucast payload_len :: u8) XOR cmd
      in case msplink_write mdev buf of (ret, mdev1) \<Rightarrow>
         if ret < 0 then (ret, mdev1)
         else
           (case (if 254 < unat payload_len
                  then (case msplink_write mdev1 (htole16 payload_len) of (ret, mdev2) \<Rightarrow>
                          if ret < 0 then Inl (ret, mdev2)
                          else Inr (mdev2,
                                    (checksum XOR htole16 payload_len ! 0)
                                      XOR htole16 payload_len ! 1))
                  else Inr (mdev1, checksum)) of
              Inl r \<Rightarrow> r
            | Inr (mdev2, checksum) \<Rightarrow>
                (case msplink_write mdev2 (take (unat payload_len) payload) of (ret, mdev3) \<Rightarrow>
                   if ret < 0 then (ret, mdev3)
                   else
                     (case msplink_write mdev3
                             [checksum_xor (take (unat payload_len) payload) checksum] of
                        (ret, mdev4) \<Rightarrow>
                          if ret < 0 then (ret, mdev4) else (MSP_OK, mdev4)))))"

text \<open>
  What C leaves undefined: a store or load outside a declared array, and a read of an
  object that was never initialised. Where the source does one of these the model stops
  with the fault instead of inventing a value.
\<close>

datatype fault = Buffer_overrun | Uninitialised_read

text \<open>
  Stores through \<open>*(pBuf++)\<close> into an array \<open>a\<close>, starting at index \<open>i\<close>, and a load
  of \<open>n\<close> bytes from index \<open>i\<close>.
\<close>

primrec store_bytes :: "u8 list \<Rightarrow> nat \<Rightarrow> u8 list \<Rightarrow> fault + u8 list" where
  "store_bytes a i [] = Inr a"
| "store_bytes a i (v # vs) =
     (if i < length a then store_bytes (a[i := v]) (Suc i) vs else Inl Buffer_overrun)"

definition load_bytes :: "u8 list \<Rightarrow> nat \<Rightarrow> nat \<Rightarrow> fault + u8 list" where
  "load_bytes a i n = (if i + n \<le> length a then Inr (take n (drop i a)) else Inl Buffer_overrun)"

text \<open>
  \<open>send_V2(mdev, flag, cmd, payload, payload_len)\<close>. The source declares
  \<open>uint8_t buf[7]\<close>, stores eight header bytes through \<open>pBuf\<close>, writes \<open>buf\<close> for 8 bytes
  and checksums \<open>&buf[3]\<close> for 5: the eighth store, and both loads, reach \<open>buf[7]\<close>. The
  array, \<open>buf7\<close> below, starts out uninitialised (zeros stand for that; every cell
  that exists is stored before it is loaded).
\<close>

definition send_V2 ::
  "mspdev \<Rightarrow> u8 \<Rightarrow> u16 \<Rightarrow> u8 list \<Rightarrow> u16 \<Rightarrow> fault + (int \<times> mspdev)" where
  "send_V2 mdev flag cmd payload payload_len =
     (let cmd_le = htole16 cmd;
          payload_len_le = htole16 payload_len
      in case store_bytes (replicate 7 0) 0
                [0x24, 0x58, 0x3C, flag, cmd_le ! 0, cmd_le ! 1,
                 payload_len_le ! 0, payload_len_le ! 1] of
           Inl f \<Rightarrow> Inl f
         | Inr buf7 \<Rightarrow>
             (case load_bytes buf7 0 8 of
                Inl f \<Rightarrow> Inl f
              | Inr header \<Rightarrow>
                  (case msplink_write mdev header of (ret, mdev1) \<Rightarrow>
                     if ret < 0 then Inr (ret, mdev1)
                     else
                       (case msplink_write mdev1 (take (unat payload_len) payload) of
                          (ret, mdev2) \<Rightarrow>
                            if ret < 0 then Inr (ret, mdev2)
                            else
                              (case load_bytes buf7 3 5 of
                                 Inl f \<Rightarrow> Inl f
                               | Inr flds \<Rightarrow>
                                   (case msplink_write mdev2
                                           [checksum_crc8_dvb_s2
                                              (take (unat payload_len) payload)
                                              (checksum_crc8_dvb_s2 flds 0)] of
                                      (ret, mdev3) \<Rightarrow>
                                        if ret < 0 then Inr (ret, mdev3)
                                        else Inr (MSP_OK, mdev3)))))))"

section \<open>parse.c\<close>

text \<open>
  \<open>mspPacket_t\<close> of parse.h; its field \<open>function\<close> is \<open>function_cmd\<close> here.
  \<open>payload\<close> is a pointer: the parser only ever stores the address of the device's
  receive buffer in it, so the payload a caller sees is read out of that buffer
  (\<open>packet_payload\<close>, as \<open>packResponse\<close> reads it).
\<close>

datatype payload_ptr = NULL | Mdev_buf

record mspPacket_t =
  version :: u8
  direction :: u8
  flag :: u8
  function_cmd :: u16
  payload_size :: u16
  payload :: payload_ptr
  checksum :: u8

definition packet_payload :: "mspdev \<Rightarrow> mspPacket_t \<Rightarrow> u8 list option" where
  "packet_payload mdev pkt =
     (case payload pkt of
        NULL \<Rightarrow> None
      | Mdev_buf \<Rightarrow> Some (take (unat (payload_size pkt)) (buf mdev)))"

text \<open>A read into \<open>mdev->buf\<close> overwrites the buffer from its start.\<close>

definition store_buf :: "mspdev \<Rightarrow> u8 list \<Rightarrow> mspdev" where
  "store_buf mdev got = mdev\<lparr>buf := got @ drop (length got) (buf mdev)\<rparr>"

fun get_sync_loop :: "nat \<Rightarrow> mspdev \<Rightarrow> int \<times> mspdev" where
  "get_sync_loop 0 mdev = (MSP_RX_SYNC_NOT_FOUND, mdev)"
| "get_sync_loop (Suc i) mdev =
     (case msplink_read mdev 1 of (ret, b, mdev1) \<Rightarrow>
        if ret = MSP_RX_FAIL then (MSP_RX_SYNC_NOT_FOUND, mdev1)
        else if ret < 0 then (ret, mdev1)
        else if b ! 0 = 0x24 then (MSP_OK, mdev1)
        else get_sync_loop i mdev1)"

definition get_sync :: "mspdev \<Rightarrow> int \<times> mspdev" where
  "get_sync mdev = get_sync_loop MAX_SYNC_SEARCH_BYTES mdev"

definition parse_V2 :: "mspdev \<Rightarrow> mspPacket_t \<Rightarrow> int \<times> mspdev \<times> mspPacket_t" where
  "parse_V2 mdev pkt =
     (case msplink_read mdev 5 of (ret, bytes, mdev1) \<Rightarrow>
        if ret < 0 then (ret, mdev1, pkt)
        else
          let checksum0 = checksum_crc8_dvb_s2 (take 5 bytes) 0;
              pkt1 = pkt\<lparr>flag := bytes ! 0,
                         function_cmd := le16toh (bytes ! 1) (bytes ! 2),
                         payload_size := le16toh (bytes ! 3) (bytes ! 4)\<rparr>
          in if READ_BUFFER_SIZE - 1 < unat (payload_size pkt1)
             then (MSP_OUT_OF_MEMORY, mdev1, pkt1)
             else
               (case msplink_read mdev1 (unat (payload_size pkt1) + 1) of
                  (ret, got, mdev2) \<Rightarrow>
                    let mdev3 = store_buf mdev2 got in
                    if ret < 0 then (ret, mdev3, pkt1)
                    else
                      let pkt2 = pkt1\<lparr>payload := Mdev_buf,
                                        checksum := buf mdev3 ! unat (payload_size pkt1)\<rparr>;
                          checksum1 = checksum_crc8_dvb_s2
                                        (take (unat (payload_size pkt2)) (buf mdev3)) checksum0
                      in if checksum pkt2 \<noteq> checksum1
                         then (MSP_RX_CHECKSUM_MISMATCH, mdev3, pkt2)
                         else (MSP_OK, mdev3, pkt2)))"

text \<open>
  The JUMBO block of \<open>parse_V1\<close>: with size byte \<open>0xff\<close> two more bytes are read, folded
  into the checksum, and replace the payload size. \<open>Inl\<close> is the early return.
\<close>

definition parse_V1_jumbo ::
  "mspdev \<Rightarrow> mspPacket_t \<Rightarrow> u8 \<Rightarrow> (int \<times> mspdev \<times> mspPacket_t) + (mspdev \<times> mspPacket_t \<times> u8)" where
  "parse_V1_jumbo mdev pkt checksum0 =
     (if payload_size pkt = 0xff
      then (case msplink_read mdev 2 of (ret, payload_len_le, mdev1) \<Rightarrow>
              if ret < 0 then Inl (ret, mdev1, pkt)
              else Inr (mdev1,
                        pkt\<lparr>payload_size := le16toh (payload_len_le ! 0) (payload_len_le ! 1)\<rparr>,
                        checksum_xor (take 2 payload_len_le) checksum0))
      else Inr (mdev, pkt, checksum0))"

definition parse_V1 :: "mspdev \<Rightarrow> mspPacket_t \<Rightarrow> int \<times> mspdev \<times> mspPacket_t" where
  "parse_V1 mdev pkt =
     (let pkt0 = pkt\<lparr>flag := 0\<rparr>
      in case msplink_read mdev 2 of (ret, b, mdev1) \<Rightarrow>
         if ret < 0 then (ret, mdev1, pkt0)
         else
           let checksum0 = checksum_xor (take 2 b) 0;
               pkt1 = pkt0\<lparr>payload_size := ucast (b ! 0), function_cmd := ucast (b ! 1)\<rparr>
           in case parse_V1_jumbo mdev1 pkt1 checksum0 of
                Inl r \<Rightarrow> r
              | Inr (mdev2, pkt2, checksum1) \<Rightarrow>
                  if function_cmd pkt2 = 0xff
                  then (case parse_V2 mdev2 pkt2 of (ret, mdev3, pkt3) \<Rightarrow>
                          if ret < 0 then (ret, mdev3, pkt3) else (MSP_OK, mdev3, pkt3))
                  else if READ_BUFFER_SIZE - 1 < unat (payload_size pkt2)
                  then (MSP_OUT_OF_MEMORY, mdev2, pkt2)
                  else
                    (case msplink_read mdev2 (unat (payload_size pkt2) + 1) of
                       (ret, got, mdev3) \<Rightarrow>
                         let mdev4 = store_buf mdev3 got in
                         if ret < 0 then (ret, mdev4, pkt2)
                         else
                           let pkt3 = pkt2\<lparr>payload := Mdev_buf,
                                             checksum := buf mdev4 ! unat (payload_size pkt2)\<rparr>;
                               checksum2 = checksum_xor
                                             (take (unat (payload_size pkt3)) (buf mdev4)) checksum1
                           in if checksum pkt3 \<noteq> checksum2
                              then (MSP_RX_CHECKSUM_MISMATCH, mdev4, pkt3)
                              else (MSP_OK, mdev4, pkt3)))"

definition parse_packet :: "mspdev \<Rightarrow> mspPacket_t \<Rightarrow> int \<times> mspdev \<times> mspPacket_t" where
  "parse_packet mdev response =
     (case msplink_waituntilsent mdev of (ret, mdev1) \<Rightarrow>
        if ret < 0 then (ret, mdev1, response)
        else
          (case get_sync mdev1 of (ret, mdev2) \<Rightarrow>
             if ret < 0 then (ret, mdev2, response)
             else
               (case msplink_read mdev2 2 of (ret, headbytes, mdev3) \<Rightarrow>
                  if ret < 0 then (ret, mdev3, response)
                  else
                    let response1 = response\<lparr>version := headbytes ! 0,
                                               direction := headbytes ! 1\<rparr>
                    in if version response1 = MSP_V1
                       then (case parse_V1 mdev3 response1 of (ret, mdev4, response2) \<Rightarrow>
                               if ret < 0 then (ret, mdev4, response2)
                               else if direction response2 = MSP_DIR_ERROR
                               then (MSP_RX_CLIENT_NACK, mdev4, response2)
                               else (MSP_OK, mdev4, response2))
                       else if version response1 = MSP_V2
                       then (case parse_V2 mdev3 response1 of (ret, mdev4, response2) \<Rightarrow>
                               if ret < 0 then (ret, mdev4, response2)
                               else if direction response2 = MSP_DIR_ERROR
                               then (MSP_RX_CLIENT_NACK, mdev4, response2)
                               else (MSP_OK, mdev4, response2))
                       else (MSP_LIB_INTERNAL_ERROR, mdev3, response1))))"

section \<open>msplink.c\<close>

text \<open>
  The Python objects the module hands back. \<open>MspPacketType\<close> is the struct sequence of
  \<open>PyInit_msplink\<close>; its flag is \<open>None\<close> unless the version character is \<open>'X'\<close>, and
  its payload is \<open>None\<close> when the packet's pointer was never set (the bytes are then
  whatever \<open>PyBytes_FromStringAndSize\<close> left uninitialised). Exceptions are a class with
  the message the source gives it; \<open>PyArg_Error\<close> is whatever
  \<open>PyArg_ParseTupleAndKeywords\<close> raised. Failures inside the interpreter itself
  (\<open>packResponse\<close> or \<open>PyBytes_AsString\<close> returning \<open>NULL\<close>) are not modelled.
\<close>

record MspPacketType =
  py_version :: u8
  py_direction :: u8
  py_flag :: "nat option"
  py_command :: nat
  py_payload :: "u8 list option"
  py_checksum :: nat

datatype message =
    Already_open | Must_open_first | Devname_alloc
  | Bad_msp_version int | Bad_read_retries int | Command_over_255
  | Not_contiguous | Tx_short_write | Rx_short_read | Sync_not_found
  | Lib_internal_bug | Bug_in_pyMsplinkSet | Bug_in_pyMsplinkGet
  | Payload_too_big | Unknown_error int

datatype py_exception =
    MspExc_Exception message
  | MspExc_NoResponse message
  | MspExc_NACK MspPacketType
  | MspExc_BadChecksum MspPacketType
  | PyExc_OSError int
  | PyExc_ValueError message
  | PyExc_MemoryError message
  | PyExc_BufferError message
  | PyArg_Error

text \<open>
  What a module function returns: \<open>None\<close>, a packet, or \<open>NULL\<close> with the exception that
  was set (\<open>PyErr None\<close>: \<open>NULL\<close> with no exception set). \<open>PyFault\<close> is a call that
  ran into undefined behaviour; the globals handed back with it are those of the moment
  before.
\<close>

datatype py_result =
  PyNone | PyPacket MspPacketType | PyErr "py_exception option" | PyFault fault

definition packResponse :: "mspdev \<Rightarrow> mspPacket_t \<Rightarrow> MspPacketType" where
  "packResponse mdev rx =
     \<lparr>py_version = version rx,
      py_direction = direction rx,
      py_flag = (if version rx = 0x58 then Some (unat (flag rx)) else None),
      py_command = unat (function_cmd rx),
      py_payload = packet_payload mdev rx,
      py_checksum = unat (checksum rx)\<rparr>"

definition throwError :: "int \<Rightarrow> mspdev \<Rightarrow> py_exception option" where
  "throwError returncode mdev =
     (if returncode = MSP_OK then None
      else if returncode = MSP_SYSCALL_FAIL then Some (PyExc_OSError (errornum mdev))
      else if returncode = MSP_TX_FAIL then Some (MspExc_Exception Tx_short_write)
      else if returncode = MSP_RX_FAIL then Some (MspExc_NoResponse Rx_short_read)
      else if returncode = MSP_RX_SYNC_NOT_FOUND then Some (MspExc_NoResponse Sync_not_found)
      else if returncode = MSP_LIB_INTERNAL_ERROR then Some (MspExc_Exception Lib_internal_bug)
      else if returncode = MSP_OUT_OF_MEMORY then Some (PyExc_MemoryError Payload_too_big)
      else Some (MspExc_Exception (Unknown_error returncode)))"

definition throwPacketError :: "int \<Rightarrow> mspdev \<Rightarrow> mspPacket_t \<Rightarrow> py_exception option" where
  "throwPacketError returncode mdev rxPkt =
     (if returncode = MSP_OK then None
      else if returncode = MSP_RX_CHECKSUM_MISMATCH
      then Some (MspExc_BadChecksum (packResponse mdev rxPkt))
      else if returncode = MSP_RX_CLIENT_NACK
      then Some (MspExc_NACK (packResponse mdev rxPkt))
      else throwError returncode mdev)"

text \<open>
  The arguments as \<open>PyArg_ParseTupleAndKeywords\<close> leaves them. For \<open>open\<close> the two
  optional integers are parsed straight into the device: \<open>Some\<close> is a value that was
  stored (also when a later argument then failed to parse), \<open>None\<close> leaves the field as
  it was. \<open>malloc_ok\<close> is whether the copy of the path could be allocated. For \<open>set\<close>,
  \<open>set_view_touched\<close> is whether the parser got as far as filling the local
  \<open>Py_buffer payload\<close> (which it releases again when a later argument fails): when the
  parse fails before that, the \<open>Py_buffer\<close> is still uninitialised stack memory.
\<close>

record open_args =
  open_parse_ok :: bool
  serial_device :: string
  arg_read_retries :: "int option"
  arg_msp_version :: "int option"
  malloc_ok :: bool

record set_args =
  set_parse_ok :: bool
  set_view_touched :: bool
  set_command :: u16
  set_payload :: "u8 list"
  set_contiguous :: bool
  set_flag :: u8
  wait_for_ack :: int

record get_args =
  get_parse_ok :: bool
  get_command :: u16
  get_flag :: u8

text \<open>
  The module's two globals, \<open>mspDevice\<close> and \<open>mspResponse\<close>, are passed in and handed
  back. \<open>PyInit_msplink\<close> sets six fields of the device; the rest of the state is
  static storage and the kernel's.
\<close>

definition PyInit_msplink :: "mspdev \<Rightarrow> mspdev" where
  "PyInit_msplink mspDevice =
     mspDevice\<lparr>device_open := 0, fd := 0, devname := None,
               read_retries := MSP_RETRY_DEFAULT, mspversion := 1, errornum := 0\<rparr>"

definition pyMsplinkOpen :: "mspdev \<Rightarrow> open_args \<Rightarrow> py_result \<times> mspdev" where
  "pyMsplinkOpen mspDevice args =
     (if device_open mspDevice \<noteq> 0
      then (PyErr (Some (MspExc_Exception Already_open)), mspDevice)
      else
        let dev1 = mspDevice\<lparr>
              read_retries := (case arg_read_retries args of
                                 Some r \<Rightarrow> r | None \<Rightarrow> read_retries mspDevice),
              mspversion := (case arg_msp_version args of
                               Some v \<Rightarrow> v | None \<Rightarrow> mspversion mspDevice)\<rparr>
        in if \<not> open_parse_ok args then (PyErr (Some PyArg_Error), dev1)
           else if \<not> malloc_ok args
           then (PyErr (Some (PyExc_MemoryError Devname_alloc)), dev1\<lparr>devname := None\<rparr>)
           else
             let dev2 = dev1\<lparr>devname := Some (serial_device args)\<rparr>
             in if mspversion dev2 \<noteq> 1 \<and> mspversion dev2 \<noteq> 2
                then (PyErr (Some (PyExc_ValueError (Bad_msp_version (mspversion dev2)))), dev2)
                else if read_retries dev2 \<le> 0
                then (PyErr (Some (PyExc_ValueError (Bad_read_retries (read_retries dev2)))),
                      dev2)
                else
                  (case msplink_open dev2 of (ret, dev3) \<Rightarrow>
                     if ret < 0 then (PyErr (throwError ret dev3), dev3)
                     else (PyNone, dev3\<lparr>device_open := 1\<rparr>)))"

text \<open>
  \<open>pyMsplinkClose\<close>; the first component says whether the \<open>ResourceWarning\<close> was issued.
\<close>

definition pyMsplinkClose :: "mspdev \<Rightarrow> bool \<times> py_result \<times> mspdev" where
  "pyMsplinkClose mspDevice =
     (let warned = (device_open mspDevice = 0);
          dev1 = mspDevice\<lparr>devname := None, device_open := 0\<rparr>
      in case msplink_close dev1 of (ret, dev2) \<Rightarrow>
           if ret < 0 then (warned, PyErr (throwError ret dev2), dev2)
           else (warned, PyNone, dev2))"

text \<open>
  \<open>pyMsplinkSet\<close>. \<open>payload.len\<close> is passed to the \<open>uint16_t payload_len\<close> parameter of
  the senders, which keeps its low 16 bits. A failed argument parse jumps to
  \<open>release_buffer_and_mutex_handler\<close>, whose \<open>PyBuffer_Release(&payload)\<close> reads the
  \<open>Py_buffer\<close>: uninitialised unless the parser had touched it.
\<close>

definition pyMsplinkSet ::
  "mspdev \<Rightarrow> mspPacket_t \<Rightarrow> set_args \<Rightarrow> py_result \<times> mspdev \<times> mspPacket_t" where
  "pyMsplinkSet mspDevice mspResponse args =
     (if device_open mspDevice = 0
      then (PyErr (Some (MspExc_Exception Must_open_first)), mspDevice, mspResponse)
      else if \<not> set_parse_ok args
      then (if set_view_touched args then PyErr (Some PyArg_Error)
            else PyFault Uninitialised_read,
            mspDevice, mspResponse)
      else if \<not> set_contiguous args
      then (PyErr (Some (PyExc_BufferError Not_contiguous)), mspDevice, mspResponse)
      else
        (case msplink_clearRxBuffer mspDevice of (retval, dev1) \<Rightarrow>
           if retval < 0 then (PyErr (throwError retval dev1), dev1, mspResponse)
           else
             (case (if mspversion dev1 = 1
                    then (if 255 < unat (set_command args)
                          then Inl (PyErr (Some (PyExc_ValueError Command_over_255)), dev1)
                          else
                            (case send_V1 dev1 (ucast (set_command args)) (set_payload args)
                                    (of_nat (length (set_payload args))) of
                               (retval, dev2) \<Rightarrow>
                                 if retval < 0 then Inl (PyErr (throwError retval dev2), dev2)
                                 else Inr dev2))
                    else if mspversion dev1 = 2
                    then (case send_V2 dev1 (set_flag args) (set_command args) (set_payload args)
                                 (of_nat (length (set_payload args))) of
                            Inl f \<Rightarrow> Inl (PyFault f, dev1)
                          | Inr (retval, dev2) \<Rightarrow>
                              if retval < 0 then Inl (PyErr (throwError retval dev2), dev2)
                              else Inr dev2)
                    else Inl (PyErr (Some (MspExc_Exception Bug_in_pyMsplinkSet)), dev1)) of
                Inl (err, dev2) \<Rightarrow> (err, dev2, mspResponse)
              | Inr dev2 \<Rightarrow>
                  if wait_for_ack args \<noteq> 0
                  then (case parse_packet dev2 mspResponse of (retval, dev3, resp) \<Rightarrow>
                          if retval < 0
                          then (PyErr (throwPacketError retval dev3 resp), dev3, resp)
                          else (PyPacket (packResponse dev3 resp), dev3, resp))
                  else (PyNone, dev2, mspResponse))))"

definition pyMsplinkGet ::
  "mspdev \<Rightarrow> mspPacket_t \<Rightarrow> get_args \<Rightarrow> py_result \<times> mspdev \<times> mspPacket_t" where
  "pyMsplinkGet mspDevice mspResponse args =
     (if device_open mspDevice = 0
      then (PyErr (Some (MspExc_Exception Must_open_first)), mspDevice, mspResponse)
      else if \<not> get_parse_ok args then (PyErr (Some PyArg_Error), mspDevice, mspResponse)
      else
        (case msplink_clearRxBuffer mspDevice of (retval, dev1) \<Rightarrow>
           if retval < 0 then (PyErr (throwError retval dev1), dev1, mspResponse)
           else
             (case (if mspversion dev1 = 1
                    then (if 255 < unat (get_command args)
                          then Inl (PyErr (Some (PyExc_ValueError Command_over_255)), dev1)
                          else
                            (case send_V1 dev1 (ucast (get_command args)) [] 0 of
                               (retval, dev2) \<Rightarrow>
                                 if retval < 0 then Inl (PyErr (throwError retval dev2), dev2)
                                 else Inr dev2))
                    else if mspversion dev1 = 2
                    then (case send_V2 dev1 (get_flag args) (get_command args) [] 0 of
                            Inl f \<Rightarrow> Inl (PyFault f, dev1)
                          | Inr (retval, dev2) \<Rightarrow>
                              if retval < 0 then Inl (PyErr (throwError retval dev2), dev2)
                              else Inr dev2)
                    else Inl (PyErr (Some (MspExc_Exception Bug_in_pyMsplinkGet)), dev1)) of
                Inl (err, dev2) \<Rightarrow> (err, dev2, mspResponse)
              | Inr dev2 \<Rightarrow>
                  (case parse_packet dev2 mspResponse of (retval, dev3, resp) \<Rightarrow>
                     if retval < 0
                     then (PyErr (throwPacketError retval dev3 resp), dev3, resp)
                     else (PyPacket (packResponse dev3 resp), dev3, resp)))))"

section \<open>The configuration of the handle\<close>

text \<open>
  The three fields of the handle that \<open>open\<close> validates and \<open>get\<close>/\<open>set\<close> rely on, and
  the invariant that ties them: an open device has version 1 or 2 and a positive retry
  count.
\<close>

definition configuration :: "mspdev \<Rightarrow> int \<times> int \<times> int" where
  "configuration mdev = (device_open mdev, mspversion mdev, read_retries mdev)"

definition handle_invariant :: "mspdev \<Rightarrow> bool" where
  "handle_invariant mdev \<longleftrightarrow>
     (device_open mdev = 1 \<longrightarrow>
        (mspversion mdev = 1 \<or> mspversion mdev = 2) \<and> 1 \<le> read_retries mdev)"

section \<open>A concrete module state\<close>

text \<open>
  The module's static storage as the loader leaves it (all zero) on a line where nothing
  is queued and no call fails; the device \<open>PyInit_msplink\<close> makes of it; and that device
  after \<open>open("/dev/ttyACM0")\<close> with the default arguments.
\<close>

definition static_storage :: mspdev where
  "static_storage =
     \<lparr>fd = 0, devname = None, read_retries = 0, buf = replicate 1024 0, mspversion = 0,
      device_open = 0, errornum = 0, rxq = [], rx_events = [], tx = [], tx_events = [],
      open_errno = None, termios_errno = None, close_errno = None, tcdrain_errno = None,
      tcflush_errno = None\<rparr>"

definition static_response :: mspPacket_t where
  "static_response =
     \<lparr>version = 0, direction = 0, flag = 0, function_cmd = 0, payload_size = 0,
      payload = NULL, checksum = 0\<rparr>"

definition default_open_args :: open_args where
  "default_open_args =
     \<lparr>open_parse_ok = True, serial_device = ''/dev/ttyACM0'', arg_read_retries = None,
      arg_msp_version = None, malloc_ok = True\<rparr>"

definition opened_device :: mspdev where
  "opened_device = snd (pyMsplinkOpen (PyInit_msplink static_storage) default_open_args)"

section \<open>Checksum chaining\<close>

lemma checksum_xor_append:
  "checksum_xor (a @ b) s = checksum_xor b (checksum_xor a s)"
  by (induction a arbitrary: s) simp_all

lemma checksum_crc8_dvb_s2_append:
  "checksum_crc8_dvb_s2 (a @ b) s = checksum_crc8_dvb_s2 b (checksum_crc8_dvb_s2 a s)"
  by (induction a arbitrary: s) simp_all

text \<open>
  C8. For all byte sequences \<open>a\<close>, \<open>b\<close> and every seed \<open>s\<close>, the checksum of \<open>a @ b\<close>
  from \<open>s\<close> is the checksum of \<open>b\<close> seeded with the checksum of \<open>a\<close> from \<open>s\<close>, for both
  \<open>checksum_xor\<close> and \<open>checksum_crc8_dvb_s2\<close>; hence, however an input is cut into
  chunks that are chained through the seed, the value is that of the whole input.
\<close>

theorem checksum_seed_chaining:
  "checksum_xor (a @ b) s = checksum_xor b (checksum_xor a s)
   \<and> checksum_crc8_dvb_s2 (a @ b) s = checksum_crc8_dvb_s2 b (checksum_crc8_dvb_s2 a s)
   \<and> fold checksum_xor chunks s = checksum_xor (concat chunks) s
   \<and> fold checksum_crc8_dvb_s2 chunks s = checksum_crc8_dvb_s2 (concat chunks) s"
proof -
  have x: "fold checksum_xor chunks s = checksum_xor (concat chunks) s"
    by (induction chunks arbitrary: s) (simp_all add: checksum_xor_append)
  have c: "fold checksum_crc8_dvb_s2 chunks s = checksum_crc8_dvb_s2 (concat chunks) s"
    by (induction chunks arbitrary: s) (simp_all add: checksum_crc8_dvb_s2_append)
  show ?thesis
    using x c by (simp add: checksum_xor_append checksum_crc8_dvb_s2_append)
qed


section \<open>The transport on a queued stream\<close>

lemma opened_device_eq:
  "opened_device =
     \<lparr>fd = 3, devname = Some ''/dev/ttyACM0'', read_retries = 3, buf = replicate 1024 0,
      mspversion = 1, device_open = 1, errornum = 0, rxq = [], rx_events = [], tx = [],
      tx_events = [], open_errno = None, termios_errno = None, close_errno = None,
      tcdrain_errno = None, tcflush_errno = None\<rparr>"
  by (simp add: opened_device_def pyMsplinkOpen_def PyInit_msplink_def static_storage_def
      default_open_args_def msplink_open_def MSP_ERRORS_defs MSP_RETRY_DEFAULT_def Let_def)

lemma nat_retries_2: "2 \<le> (r::int) \<Longrightarrow> \<exists>k. nat r = Suc (Suc k)"
  by (rule exI [of _ "nat r - 2"]) simp

lemma rxq_update_same: "rxq dev = q \<Longrightarrow> dev\<lparr>rxq := q\<rparr> = dev"
  by (cases dev) simp

text \<open>
  With at least two read calls allowed and the \<open>n\<close> bytes already queued, the first call
  takes them and the second one, asking for nothing, lets the loop see that nothing is
  missing.
\<close>

lemma msplink_read_stream:
  assumes "2 \<le> read_retries dev" and "rx_events dev = []" and "0 < n"
    and "n \<le> length (rxq dev)"
  shows "msplink_read dev n = (int n, take n (rxq dev), dev\<lparr>rxq := drop n (rxq dev)\<rparr>)"
proof -
  from assms(1) obtain k where k: "nat (read_retries dev) = Suc (Suc k)"
    using nat_retries_2 by blast
  show ?thesis
    using assms(2-4) by (simp add: msplink_read_def k sys_read_def)
qed

lemma msplink_read_loop_starved:
  "rx_events dev = [] \<Longrightarrow> rxq dev = [] \<Longrightarrow> 0 < r \<Longrightarrow>
     msplink_read_loop len i dev r got = (MSP_RX_FAIL, got, dev)"
  by (induction i) (simp_all add: sys_read_def rxq_update_same)

lemma msplink_read_short:
  assumes "1 \<le> read_retries dev" and "rx_events dev = []" and "length (rxq dev) < n"
  shows "msplink_read dev n = (MSP_RX_FAIL, rxq dev, dev\<lparr>rxq := []\<rparr>)"
proof -
  from assms(1) obtain k where k: "nat (read_retries dev) = Suc k"
    by (cases "nat (read_retries dev)") auto
  show ?thesis
    using assms(2-3) by (simp add: msplink_read_def k sys_read_def msplink_read_loop_starved)
qed

text \<open>A read that does not fail has stored exactly \<open>len\<close> bytes.\<close>

lemma msplink_read_loop_length:
  "msplink_read_loop len i dev r got = (ret, got', dev') \<Longrightarrow> 0 \<le> ret \<Longrightarrow>
     length got + r = len \<Longrightarrow> length got' = len"
proof (induction i arbitrary: dev r got)
  case 0
  then show ?case by (simp add: MSP_RX_FAIL_def)
next
  case (Suc i)
  show ?case
  proof (cases "sys_read dev r")
    case (Pair res d1)
    show ?thesis
    proof (cases res)
      case (Inl e)
      with Pair Suc.prems show ?thesis by (simp add: MSP_SYSCALL_FAIL_def)
    next
      case (Inr bytes)
      have len: "length bytes \<le> r"
        using Pair Inr by (auto simp: sys_read_def split: list.splits rx_event.splits)
      show ?thesis
      proof (cases "r = 0")
        case True
        with Pair Inr Suc.prems show ?thesis by simp
      next
        case False
        with Pair Inr Suc.prems have
          "msplink_read_loop len i d1 (r - length bytes) (got @ bytes) = (ret, got', dev')"
          by simp
        moreover have "length (got @ bytes) + (r - length bytes) = len"
          using len Suc.prems(3) by simp
        ultimately show ?thesis using Suc.IH Suc.prems(2) by blast
      qed
    qed
  qed
qed

lemma msplink_read_length:
  "msplink_read dev len = (ret, got, dev') \<Longrightarrow> 0 \<le> ret \<Longrightarrow> length got = len"
  unfolding msplink_read_def by (erule msplink_read_loop_length) simp_all

text \<open>
  With one read call allowed, no read of a positive length succeeds, whatever arrives: the
  loop ends before it tests for completion again.
\<close>

lemma msplink_read_one_retry_never_succeeds:
  assumes "read_retries dev \<le> 1" and "0 < n"
  shows "fst (msplink_read dev n) < 0"
proof (cases "nat (read_retries dev)")
  case 0
  then show ?thesis by (simp add: msplink_read_def MSP_RX_FAIL_def)
next
  case (Suc k)
  with assms(1) have "nat (read_retries dev) = Suc 0" by simp
  with assms(2) show ?thesis
    by (simp add: msplink_read_def MSP_RX_FAIL_def MSP_SYSCALL_FAIL_def
        split: prod.splits sum.splits)
qed

lemma msplink_read_loop_complete:
  "rx_events dev = map Arrives chunks \<Longrightarrow>
     fst (msplink_read_loop len (Suc i) dev 0 got) = int len"
  by (cases chunks) (simp_all add: sys_read_def)

lemma msplink_read_loop_outcome:
  assumes "rx_events dev = map Arrives chunks" and "0 < r"
  shows "fst (msplink_read_loop len i dev r got) =
           (if 2 \<le> i \<and> r \<le> length (rxq dev) + length (concat (take (i - 1) chunks))
            then int len else MSP_RX_FAIL)"
  using assms
proof (induction i arbitrary: dev r got chunks)
  case 0
  show ?case by simp
next
  case (Suc i)
  show ?case
  proof (cases chunks)
    case Nil
    let ?dev' = "dev\<lparr>rxq := drop r (rxq dev)\<rparr>"
    have ev: "rx_events ?dev' = map Arrives []" using Suc.prems Nil by simp
    show ?thesis
    proof (cases "r \<le> length (rxq dev)")
      case True
      then have "fst (msplink_read_loop len (Suc i) dev r got)
                   = fst (msplink_read_loop len i ?dev' 0 (got @ take r (rxq dev)))"
        using Suc.prems Nil by (simp add: sys_read_def)
      also have "\<dots> = (if 1 \<le> i then int len else MSP_RX_FAIL)"
        using msplink_read_loop_complete [OF ev] by (cases i) simp_all
      finally show ?thesis using True Nil by auto
    next
      case False
      then have "fst (msplink_read_loop len (Suc i) dev r got)
                   = fst (msplink_read_loop len i ?dev' (r - length (rxq dev)) (got @ rxq dev))"
        using Suc.prems Nil by (simp add: sys_read_def)
      also have "\<dots> = MSP_RX_FAIL"
        using Suc.IH [OF ev, of "r - length (rxq dev)"] False by simp
      finally show ?thesis using False Nil by simp
    qed
  next
    case (Cons c cs)
    let ?q = "rxq dev @ c"
    let ?dev' = "dev\<lparr>rxq := drop r ?q, rx_events := map Arrives cs\<rparr>"
    have ev: "rx_events ?dev' = map Arrives cs" by simp
    show ?thesis
    proof (cases "r \<le> length ?q")
      case True
      then have "fst (msplink_read_loop len (Suc i) dev r got)
                   = fst (msplink_read_loop len i ?dev' 0 (got @ take r ?q))"
        using Suc.prems Cons by (simp add: sys_read_def)
      also have "\<dots> = (if 1 \<le> i then int len else MSP_RX_FAIL)"
        using msplink_read_loop_complete [OF ev] by (cases i) simp_all
      finally show ?thesis using True Cons by (cases i) auto
    next
      case False
      then have "fst (msplink_read_loop len (Suc i) dev r got)
                   = fst (msplink_read_loop len i ?dev' (r - length ?q) (got @ ?q))"
        using Suc.prems Cons by (simp add: sys_read_def)
      also have "\<dots> = (if 2 \<le> i \<and> r - length ?q \<le> length (concat (take (i - 1) cs))
                         then int len else MSP_RX_FAIL)"
        using Suc.IH [OF ev, of "r - length ?q"] False by simp
      finally have step: "fst (msplink_read_loop len (Suc i) dev r got)
                   = (if 2 \<le> i \<and> r - length ?q \<le> length (concat (take (i - 1) cs))
                         then int len else MSP_RX_FAIL)" .
      have t: "length (concat (take (Suc i - 1) chunks))
                 = (if i = 0 then 0 else length c + length (concat (take (i - 1) cs)))"
        using Cons by (cases i) simp_all
      consider "i = 0" | "i = 1" | "2 \<le> i" by linarith
      then show ?thesis
      proof cases
        case 1
        with step t show ?thesis by simp
      next
        case 2
        with step t False show ?thesis by simp
      next
        case 3
        with step t False show ?thesis by auto
      qed
    qed
  qed
qed

text \<open>
  What the loop does when no read fails: a read of \<open>n > 0\<close> bytes succeeds exactly when
  the \<open>n\<close> bytes are there within the first \<open>read_retries - 1\<close> read calls; otherwise it
  returns \<open>MSP_RX_FAIL\<close>.
\<close>

lemma msplink_read_outcome:
  assumes "rx_events dev = map Arrives chunks" and "0 < n"
  shows "fst (msplink_read dev n) =
           (if 2 \<le> read_retries dev
               \<and> n \<le> length (rxq dev)
                        + length (concat (take (nat (read_retries dev) - 1) chunks))
            then int n else MSP_RX_FAIL)"
proof -
  have "(2 \<le> nat (read_retries dev)) = (2 \<le> read_retries dev)" by auto
  with msplink_read_loop_outcome [OF assms, of n "nat (read_retries dev)" "[]"]
  show ?thesis by (simp add: msplink_read_def)
qed

text \<open>
  C2. The claim: for \<open>n > 0\<close>, \<open>msplink_read\<close> succeeds whenever the \<open>n\<close> bytes arrive
  within \<open>read_retries\<close> read calls, and returns \<open>MSP_RX_FAIL\<close> only when the retries
  are used up with fewer than \<open>n\<close> bytes received. The code at \<open>read_retries = 1\<close>,
  \<open>n = 1\<close>, with the byte already queued: the single read call returns the byte, it is
  stored, and the function returns \<open>MSP_RX_FAIL\<close> with all \<open>n\<close> bytes received. (The
  lemmas above give the general picture: one more read call is always needed after the
  one that brought the last byte.)
\<close>

theorem msplink_read_fails_with_all_bytes_received:
  "msplink_read (opened_device\<lparr>read_retries := 1, rxq := [0x24]\<rparr>) 1
     = (MSP_RX_FAIL, [0x24], opened_device\<lparr>read_retries := 1, rxq := []\<rparr>)"
  by (simp add: msplink_read_def sys_read_def opened_device_eq)

section \<open>Frames on a queued stream\<close>

text \<open>
  The lemmas of this section follow the parser over a stream that is already queued, on a
  device whose reads deliver it: at least two read calls allowed, nothing further
  arriving and no read failing.
\<close>

lemma le16toh_htole16: "le16toh (htole16 v ! 0) (htole16 v ! 1) = v"
  unfolding le16toh_def htole16_def
  by (rule bit_word_eqI) (auto simp: bit_simps)

lemma le16toh_ucast: "le16toh (ucast v) (ucast (drop_bit 8 v)) = v"
  using le16toh_htole16 [of v] by (simp add: htole16_def)

lemma unat_ucast_u8_u16: "unat (ucast (b :: u8) :: u16) = unat b"
proof -
  have "unat b < 2 ^ 8" using unsigned_less [of b] by simp
  then show ?thesis by (simp add: unsigned_ucast_eq take_bit_nat_eq_self)
qed

lemma store_buf_nth: "buf (store_buf mdev (p @ [c])) ! length p = c"
  by (simp add: store_buf_def nth_append)

lemma store_buf_take: "take (length p) (buf (store_buf mdev (p @ [c]))) = p"
  by (simp add: store_buf_def)

lemma parse_V2_frame:
  assumes R: "2 \<le> read_retries mdev" and E: "rx_events mdev = []"
    and q: "rxq mdev = f # c0 # c1 # l0 # l1 # p @ crc # rest"
    and len: "unat (le16toh l0 l1) = length p" and cap: "length p \<le> 1023"
  shows "parse_V2 mdev pkt =
           (if crc = checksum_crc8_dvb_s2 p (checksum_crc8_dvb_s2 [f, c0, c1, l0, l1] 0)
            then MSP_OK else MSP_RX_CHECKSUM_MISMATCH,
            store_buf (mdev\<lparr>rxq := rest\<rparr>) (p @ [crc]),
            pkt\<lparr>flag := f, function_cmd := le16toh c0 c1, payload_size := le16toh l0 l1,
                payload := Mdev_buf, checksum := crc\<rparr>)"
proof -
  have r5: "msplink_read mdev 5 = (5, [f, c0, c1, l0, l1], mdev\<lparr>rxq := p @ crc # rest\<rparr>)"
    using msplink_read_stream [OF R E, of 5] q by simp
  have rb: "msplink_read (mdev\<lparr>rxq := p @ crc # rest\<rparr>) (Suc (length p))
              = (int (Suc (length p)), p @ [crc], mdev\<lparr>rxq := rest\<rparr>)"
    using msplink_read_stream [of "mdev\<lparr>rxq := p @ crc # rest\<rparr>" "Suc (length p)"] R E
    by simp
  show ?thesis
    unfolding parse_V2_def
    using cap
    by (simp add: r5 Let_def READ_BUFFER_SIZE_def len rb store_buf_nth store_buf_take
        MSP_ERRORS_defs)
qed


lemma ucast_u8_u16_eq_ff: "(ucast (b :: u8) :: u16) = 0xff \<longleftrightarrow> b = 0xff"
proof
  assume "(ucast b :: u16) = 0xff"
  then have "unat (ucast b :: u16) = unat (0xff :: u16)" by simp
  then have "unat b = unat (0xff :: u8)" by (simp add: unat_ucast_u8_u16)
  then show "b = 0xff" by (simp only: word_unat_eq_iff)
next
  assume "b = 0xff" then show "(ucast b :: u16) = 0xff" by simp
qed

lemma unat_u8_le: "unat (b :: u8) \<le> 255"
  using unsigned_less [of b, where 'a = nat] by simp

lemma parse_V1_frame:
  assumes R: "2 \<le> read_retries mdev" and E: "rx_events mdev = []"
    and q: "rxq mdev = sz # cmd # p @ ck # rest"
    and sz: "sz \<noteq> 0xff" and cmd: "cmd \<noteq> 0xff" and len: "unat sz = length p"
  shows "parse_V1 mdev pkt =
           (if ck = checksum_xor p (checksum_xor [sz, cmd] 0)
            then MSP_OK else MSP_RX_CHECKSUM_MISMATCH,
            store_buf (mdev\<lparr>rxq := rest\<rparr>) (p @ [ck]),
            pkt\<lparr>flag := 0, function_cmd := ucast cmd, payload_size := ucast sz,
                payload := Mdev_buf, checksum := ck\<rparr>)"
proof -
  have r2: "msplink_read mdev 2 = (2, [sz, cmd], mdev\<lparr>rxq := p @ ck # rest\<rparr>)"
    using msplink_read_stream [OF R E, of 2] q by simp
  have rb: "msplink_read (mdev\<lparr>rxq := p @ ck # rest\<rparr>) (Suc (length p))
              = (int (Suc (length p)), p @ [ck], mdev\<lparr>rxq := rest\<rparr>)"
    using msplink_read_stream [of "mdev\<lparr>rxq := p @ ck # rest\<rparr>" "Suc (length p)"] R E
    by simp
  have cap: "length p \<le> 1023" using unat_u8_le [of sz] len by simp
  show ?thesis
    unfolding parse_V1_def parse_V1_jumbo_def
    using cap sz cmd
    by (simp add: r2 Let_def READ_BUFFER_SIZE_def len rb store_buf_nth store_buf_take
        MSP_ERRORS_defs ucast_u8_u16_eq_ff unat_ucast_u8_u16)
qed

lemma parse_V1_jumbo_frame:
  assumes R: "2 \<le> read_retries mdev" and E: "rx_events mdev = []"
    and q: "rxq mdev = 0xff # cmd # l0 # l1 # p @ ck # rest"
    and cmd: "cmd \<noteq> 0xff" and len: "unat (le16toh l0 l1) = length p"
    and cap: "length p \<le> 1023"
  shows "parse_V1 mdev pkt =
           (if ck = checksum_xor p (checksum_xor [0xff, cmd, l0, l1] 0)
            then MSP_OK else MSP_RX_CHECKSUM_MISMATCH,
            store_buf (mdev\<lparr>rxq := rest\<rparr>) (p @ [ck]),
            pkt\<lparr>flag := 0, function_cmd := ucast cmd, payload_size := le16toh l0 l1,
                payload := Mdev_buf, checksum := ck\<rparr>)"
proof -
  have r2: "msplink_read mdev 2 = (2, [0xff, cmd], mdev\<lparr>rxq := l0 # l1 # p @ ck # rest\<rparr>)"
    using msplink_read_stream [OF R E, of 2] q by simp
  have rl: "msplink_read (mdev\<lparr>rxq := l0 # l1 # p @ ck # rest\<rparr>) 2
              = (2, [l0, l1], mdev\<lparr>rxq := p @ ck # rest\<rparr>)"
    using msplink_read_stream [of "mdev\<lparr>rxq := l0 # l1 # p @ ck # rest\<rparr>" 2] R E by simp
  have rb: "msplink_read (mdev\<lparr>rxq := p @ ck # rest\<rparr>) (Suc (length p))
              = (int (Suc (length p)), p @ [ck], mdev\<lparr>rxq := rest\<rparr>)"
    using msplink_read_stream [of "mdev\<lparr>rxq := p @ ck # rest\<rparr>" "Suc (length p)"] R E
    by simp
  show ?thesis
    unfolding parse_V1_def parse_V1_jumbo_def
    using cap cmd
    by (simp add: r2 rl Let_def READ_BUFFER_SIZE_def len rb store_buf_nth store_buf_take
        MSP_ERRORS_defs ucast_u8_u16_eq_ff unat_ucast_u8_u16)
qed

lemma parse_V1_tunnel:
  assumes R: "2 \<le> read_retries mdev" and E: "rx_events mdev = []"
    and q: "rxq mdev = sz # 0xff # rest" and sz: "sz \<noteq> 0xff"
  shows "parse_V1 mdev pkt =
           (case parse_V2 (mdev\<lparr>rxq := rest\<rparr>)
                   (pkt\<lparr>flag := 0, payload_size := ucast sz, function_cmd := 0xff\<rparr>) of
              (ret, mdev', pkt') \<Rightarrow> (if ret < 0 then ret else MSP_OK, mdev', pkt'))"
proof -
  have r2: "msplink_read mdev 2 = (2, [sz, 0xff], mdev\<lparr>rxq := rest\<rparr>)"
    using msplink_read_stream [OF R E, of 2] q by simp
  show ?thesis
    unfolding parse_V1_def parse_V1_jumbo_def
    using sz
    by (simp add: r2 Let_def ucast_u8_u16_eq_ff split: prod.splits)
qed

lemma parse_V1_jumbo_tunnel:
  assumes R: "2 \<le> read_retries mdev" and E: "rx_events mdev = []"
    and q: "rxq mdev = 0xff # 0xff # l0 # l1 # rest"
  shows "parse_V1 mdev pkt =
           (case parse_V2 (mdev\<lparr>rxq := rest\<rparr>)
                   (pkt\<lparr>flag := 0, function_cmd := 0xff, payload_size := le16toh l0 l1\<rparr>) of
              (ret, mdev', pkt') \<Rightarrow> (if ret < 0 then ret else MSP_OK, mdev', pkt'))"
proof -
  have r2: "msplink_read mdev 2 = (2, [0xff, 0xff], mdev\<lparr>rxq := l0 # l1 # rest\<rparr>)"
    using msplink_read_stream [OF R E, of 2] q by simp
  have rl: "msplink_read (mdev\<lparr>rxq := l0 # l1 # rest\<rparr>) 2
              = (2, [l0, l1], mdev\<lparr>rxq := rest\<rparr>)"
    using msplink_read_stream [of "mdev\<lparr>rxq := l0 # l1 # rest\<rparr>" 2] R E by simp
  show ?thesis
    unfolding parse_V1_def parse_V1_jumbo_def
    by (simp add: r2 rl Let_def split: prod.splits)
qed


lemma get_sync_loop_skip:
  assumes "2 \<le> read_retries mdev" and "rx_events mdev = []"
    and "\<forall>b\<in>set junk. b \<noteq> 0x24" and "length junk < i"
    and "rxq mdev = junk @ 0x24 # rest"
  shows "get_sync_loop i mdev = (MSP_OK, mdev\<lparr>rxq := rest\<rparr>)"
  using assms
proof (induction junk arbitrary: i mdev)
  case Nil
  then obtain j where i: "i = Suc j" by (cases i) auto
  have "msplink_read mdev 1 = (1, [0x24], mdev\<lparr>rxq := rest\<rparr>)"
    using msplink_read_stream [of mdev 1] Nil by simp
  then show ?case by (simp add: i MSP_ERRORS_defs)
next
  case (Cons x junk)
  then obtain j where i: "i = Suc j" by (cases i) auto
  have rd: "msplink_read mdev (Suc 0) = (1, [x], mdev\<lparr>rxq := junk @ 0x24 # rest\<rparr>)"
    using msplink_read_stream [of mdev 1] Cons.prems by simp
  have "get_sync_loop j (mdev\<lparr>rxq := junk @ 0x24 # rest\<rparr>)
          = (MSP_OK, mdev\<lparr>rxq := junk @ 0x24 # rest\<rparr>\<lparr>rxq := rest\<rparr>)"
    using Cons.prems i by (intro Cons.IH) simp_all
  with Cons.prems(3) show ?case by (simp add: i rd MSP_ERRORS_defs)
qed

lemma get_sync_loop_exhaust:
  assumes "2 \<le> read_retries mdev" and "rx_events mdev = []"
    and "i \<le> length (rxq mdev)" and "\<forall>b\<in>set (take i (rxq mdev)). b \<noteq> 0x24"
  shows "get_sync_loop i mdev = (MSP_RX_SYNC_NOT_FOUND, mdev\<lparr>rxq := drop i (rxq mdev)\<rparr>)"
  using assms
proof (induction i arbitrary: mdev)
  case 0
  then show ?case by (simp add: rxq_update_same)
next
  case (Suc i)
  then obtain x q where q: "rxq mdev = x # q" by (cases "rxq mdev") auto
  have rd: "msplink_read mdev (Suc 0) = (1, [x], mdev\<lparr>rxq := q\<rparr>)"
    using msplink_read_stream [of mdev 1] Suc.prems q by simp
  have "get_sync_loop i (mdev\<lparr>rxq := q\<rparr>)
          = (MSP_RX_SYNC_NOT_FOUND, mdev\<lparr>rxq := q\<rparr>\<lparr>rxq := drop i (rxq (mdev\<lparr>rxq := q\<rparr>))\<rparr>)"
    using Suc.prems q by (intro Suc.IH) simp_all
  with Suc.prems(4) q show ?case by (simp add: rd MSP_ERRORS_defs)
qed

lemma parse_packet_header:
  assumes R: "2 \<le> read_retries mdev" and E: "rx_events mdev = []"
    and D: "tcdrain_errno mdev = None"
    and q: "rxq mdev = 0x24 # v # d # rest"
  shows "parse_packet mdev pkt =
           (if v = MSP_V1
            then (case parse_V1 (mdev\<lparr>rxq := rest\<rparr>) (pkt\<lparr>version := v, direction := d\<rparr>) of
                    (ret, mdev', pkt') \<Rightarrow>
                      (if ret < 0 then ret
                       else if direction pkt' = MSP_DIR_ERROR then MSP_RX_CLIENT_NACK
                       else MSP_OK, mdev', pkt'))
            else if v = MSP_V2
            then (case parse_V2 (mdev\<lparr>rxq := rest\<rparr>) (pkt\<lparr>version := v, direction := d\<rparr>) of
                    (ret, mdev', pkt') \<Rightarrow>
                      (if ret < 0 then ret
                       else if direction pkt' = MSP_DIR_ERROR then MSP_RX_CLIENT_NACK
                       else MSP_OK, mdev', pkt'))
            else (MSP_LIB_INTERNAL_ERROR, mdev\<lparr>rxq := rest\<rparr>,
                  pkt\<lparr>version := v, direction := d\<rparr>))"
proof -
  have s: "get_sync mdev = (MSP_OK, mdev\<lparr>rxq := v # d # rest\<rparr>)"
    unfolding get_sync_def MAX_SYNC_SEARCH_BYTES_def
    using get_sync_loop_skip [of mdev "[]" 50 "v # d # rest"] R E q by simp
  have h: "msplink_read (mdev\<lparr>rxq := v # d # rest\<rparr>) 2 = (2, [v, d], mdev\<lparr>rxq := rest\<rparr>)"
    using msplink_read_stream [of "mdev\<lparr>rxq := v # d # rest\<rparr>" 2] R E by simp
  show ?thesis
    unfolding parse_packet_def
    by (simp add: msplink_waituntilsent_def D s h Let_def MSP_OK_def split: prod.splits)
qed

section \<open>The parsers leave version and direction alone\<close>

lemma parse_V2_keeps_header:
  "parse_V2 mdev pkt = (ret, mdev', pkt') \<Longrightarrow>
     version pkt' = version pkt \<and> direction pkt' = direction pkt"
  unfolding parse_V2_def
  by (auto simp: Let_def split: prod.splits if_splits)

lemma parse_V1_jumbo_keeps_header:
  "parse_V1_jumbo mdev pkt c = Inr (mdev', pkt', c') \<Longrightarrow>
     version pkt' = version pkt \<and> direction pkt' = direction pkt"
  unfolding parse_V1_jumbo_def
  by (auto split: prod.splits if_splits)

lemma parse_V1_jumbo_keeps_header_Inl:
  "parse_V1_jumbo mdev pkt c = Inl (ret, mdev', pkt') \<Longrightarrow> pkt' = pkt"
  unfolding parse_V1_jumbo_def
  by (auto split: prod.splits if_splits)

lemma parse_V1_keeps_header:
  assumes "parse_V1 mdev pkt = (ret, mdev', pkt')"
  shows "version pkt' = version pkt \<and> direction pkt' = direction pkt"
proof (cases "msplink_read mdev 2")
  case (fields r b m1)
  show ?thesis
  proof (cases "r < 0")
    case True
    with assms fields show ?thesis by (auto simp: parse_V1_def Let_def)
  next
    case False
    let ?pkt1 = "pkt\<lparr>flag := 0, payload_size := ucast (b ! 0), function_cmd := ucast (b ! 1)\<rparr>"
    show ?thesis
    proof (cases "parse_V1_jumbo m1 ?pkt1 (checksum_xor (take 2 b) 0)")
      case (Inl e)
      obtain r' m' p' where e: "e = (r', m', p')" by (cases e)
      from Inl e have "p' = ?pkt1" by (simp add: parse_V1_jumbo_keeps_header_Inl)
      with assms fields False Inl e show ?thesis by (auto simp: parse_V1_def Let_def)
    next
      case (Inr t)
      obtain m2 p2 c2 where t: "t = (m2, p2, c2)" by (cases t)
      from Inr t have k: "version p2 = version pkt \<and> direction p2 = direction pkt"
        using parse_V1_jumbo_keeps_header [of m1 ?pkt1 _ m2 p2 c2] by simp
      show ?thesis
      proof (cases "function_cmd p2 = 0xff")
        case True
        obtain r3 m3 p3 where v2: "parse_V2 m2 p2 = (r3, m3, p3)" by (cases "parse_V2 m2 p2")
        from assms fields False Inr t True v2 have "pkt' = p3"
          by (auto simp: parse_V1_def Let_def split: if_splits)
        with parse_V2_keeps_header [OF v2] k show ?thesis by simp
      next
        case nt: False
        from assms fields False Inr t nt k show ?thesis
          by (auto simp: parse_V1_def Let_def split: if_splits prod.splits)
      qed
    qed
  qed
qed


section \<open>Sync search\<close>

lemma opened_device_ready:
  "2 \<le> read_retries opened_device" "rx_events opened_device = []"
  "tcdrain_errno opened_device = None" "tx_events opened_device = []"
  "tx opened_device = []"
  by (simp_all add: opened_device_eq)

text \<open>
  C5. On a device whose reads deliver the queued stream (at least two read calls allowed,
  see C2; nothing failing), when the stream is \<open>k\<close> bytes other than \<open>'$'\<close> followed by
  \<open>'$'\<close> and the rest of a frame: for \<open>k \<le> 49\<close> the sync search succeeds, leaving the
  stream right after the \<open>'$'\<close>, and the whole parse gives exactly what it gives on the
  frame alone; when 50 bytes other than \<open>'$'\<close> come first, the search consumes those 50
  and the parse fails with \<open>MSP_RX_SYNC_NOT_FOUND\<close>, the packet untouched.
\<close>

theorem sync_search_bound:
  assumes R: "2 \<le> read_retries mdev" and E: "rx_events mdev = []"
    and D: "tcdrain_errno mdev = None" and J: "\<forall>b\<in>set junk. b \<noteq> 0x24"
  shows "(length junk \<le> 49 \<longrightarrow>
            get_sync (mdev\<lparr>rxq := junk @ 0x24 # frame\<rparr>) = (MSP_OK, mdev\<lparr>rxq := frame\<rparr>)
          \<and> parse_packet (mdev\<lparr>rxq := junk @ 0x24 # frame\<rparr>) pkt
              = parse_packet (mdev\<lparr>rxq := 0x24 # frame\<rparr>) pkt)
       \<and> (50 \<le> length junk \<longrightarrow>
            get_sync (mdev\<lparr>rxq := junk @ frame\<rparr>)
              = (MSP_RX_SYNC_NOT_FOUND, mdev\<lparr>rxq := drop 50 junk @ frame\<rparr>)
          \<and> parse_packet (mdev\<lparr>rxq := junk @ frame\<rparr>) pkt
              = (MSP_RX_SYNC_NOT_FOUND, mdev\<lparr>rxq := drop 50 junk @ frame\<rparr>, pkt))"
proof (intro conjI impI)
  assume k: "length junk \<le> 49"
  show s: "get_sync (mdev\<lparr>rxq := junk @ 0x24 # frame\<rparr>) = (MSP_OK, mdev\<lparr>rxq := frame\<rparr>)"
    unfolding get_sync_def MAX_SYNC_SEARCH_BYTES_def
    using get_sync_loop_skip [of "mdev\<lparr>rxq := junk @ 0x24 # frame\<rparr>" junk 50 frame] R E J k
    by simp
  have s0: "get_sync (mdev\<lparr>rxq := 0x24 # frame\<rparr>) = (MSP_OK, mdev\<lparr>rxq := frame\<rparr>)"
    unfolding get_sync_def MAX_SYNC_SEARCH_BYTES_def
    using get_sync_loop_skip [of "mdev\<lparr>rxq := 0x24 # frame\<rparr>" "[]" 50 frame] R E
    by simp
  show "parse_packet (mdev\<lparr>rxq := junk @ 0x24 # frame\<rparr>) pkt
          = parse_packet (mdev\<lparr>rxq := 0x24 # frame\<rparr>) pkt"
    unfolding parse_packet_def
    by (simp add: msplink_waituntilsent_def D s s0 MSP_OK_def)
next
  assume k: "50 \<le> length junk"
  show s: "get_sync (mdev\<lparr>rxq := junk @ frame\<rparr>)
             = (MSP_RX_SYNC_NOT_FOUND, mdev\<lparr>rxq := drop 50 junk @ frame\<rparr>)"
    unfolding get_sync_def MAX_SYNC_SEARCH_BYTES_def
    using get_sync_loop_exhaust [of "mdev\<lparr>rxq := junk @ frame\<rparr>" 50] R E J k
    by (auto dest: in_set_takeD)
  show "parse_packet (mdev\<lparr>rxq := junk @ frame\<rparr>) pkt
          = (MSP_RX_SYNC_NOT_FOUND, mdev\<lparr>rxq := drop 50 junk @ frame\<rparr>, pkt)"
    unfolding parse_packet_def
    by (simp add: msplink_waituntilsent_def D s MSP_ERRORS_defs)
qed

lemma parse_V1_response_108:
  "parse_packet (opened_device\<lparr>rxq := [0x24, 0x4D, 0x3E, 0x00, 0x6C, 0x6C]\<rparr>) static_response
     = (MSP_OK, store_buf (opened_device\<lparr>rxq := []\<rparr>) [0x6C],
        \<lparr>version = 0x4D, direction = 0x3E, flag = 0, function_cmd = 0x6C, payload_size = 0,
         payload = Mdev_buf, checksum = 0x6C\<rparr>)"
proof -
  have v1: "parse_V1 (opened_device\<lparr>rxq := [0x00, 0x6C, 0x6C]\<rparr>) pkt
              = (MSP_OK, store_buf (opened_device\<lparr>rxq := []\<rparr>) [0x6C],
                 pkt\<lparr>flag := 0, function_cmd := 0x6C, payload_size := 0,
                     payload := Mdev_buf, checksum := 0x6C\<rparr>)" for pkt
    using parse_V1_frame [of "opened_device\<lparr>rxq := [0x00, 0x6C, 0x6C]\<rparr>" 0 "0x6C" "[]" "0x6C" "[]" pkt]
    by (simp add: opened_device_ready)
  show ?thesis
    using parse_packet_header [of "opened_device\<lparr>rxq := [0x24, 0x4D, 0x3E, 0x00, 0x6C, 0x6C]\<rparr>"
        "0x4D" "0x3E" "[0x00, 0x6C, 0x6C]" static_response]
    by (simp add: opened_device_ready v1 MSP_V1_def MSP_DIR_ERROR_def MSP_OK_def
        static_response_def)
qed

theorem sync_search_bound_witness:
  "parse_packet (opened_device\<lparr>rxq := replicate 49 0xFF @ [0x24, 0x4D, 0x3E, 0x00, 0x6C, 0x6C]\<rparr>)
       static_response
     = (MSP_OK, store_buf (opened_device\<lparr>rxq := []\<rparr>) [0x6C],
        \<lparr>version = 0x4D, direction = 0x3E, flag = 0, function_cmd = 0x6C, payload_size = 0,
         payload = Mdev_buf, checksum = 0x6C\<rparr>)
   \<and> parse_packet (opened_device\<lparr>rxq := replicate 50 0xFF @ [0x24, 0x4D, 0x3E, 0x00, 0x6C, 0x6C]\<rparr>)
       static_response
     = (MSP_RX_SYNC_NOT_FOUND,
        opened_device\<lparr>rxq := [0x24, 0x4D, 0x3E, 0x00, 0x6C, 0x6C]\<rparr>, static_response)"
proof -
  have j: "\<forall>b\<in>set (replicate n (0xFF :: u8)). b \<noteq> 0x24" for n by simp
  show ?thesis
    using sync_search_bound [OF opened_device_ready(1-3) j, of 49 "[0x4D, 0x3E, 0x00, 0x6C, 0x6C]"
            static_response]
      sync_search_bound [OF opened_device_ready(1-3) j, of 50 "[0x24, 0x4D, 0x3E, 0x00, 0x6C, 0x6C]"
            static_response]
    by (simp add: parse_V1_response_108)
qed

section \<open>V2 tunnelled in a V1 frame\<close>

lemma crc_tunnel_example: "checksum_crc8_dvb_s2 [0x00, 0x64, 0x00, 0x04, 0x00, 1, 2, 3, 4] 0 = 0x68"
  by (simp add: CRC8_DVB_S2_LUT_def)

lemma parse_V1_wrapper:
  assumes R: "2 \<le> read_retries mdev" and E: "rx_events mdev = []"
    and H: "hdr = [sz, 0xff] \<and> sz \<noteq> 0xff \<and> wsize = ucast sz
            \<or> hdr = [0xff, 0xff, jlo, jhi] \<and> wsize = le16toh jlo jhi"
  shows "parse_V1 (mdev\<lparr>rxq := hdr @ inner\<rparr>) pkt =
           (case parse_V2 (mdev\<lparr>rxq := inner\<rparr>)
                   (pkt\<lparr>flag := 0, function_cmd := 0xff, payload_size := wsize\<rparr>) of
              (ret, mdev', pkt') \<Rightarrow> (if ret < 0 then ret else MSP_OK, mdev', pkt'))"
proof -
  have o: "pkt\<lparr>flag := 0, payload_size := s, function_cmd := 0xff\<rparr>
             = pkt\<lparr>flag := 0, function_cmd := 0xff, payload_size := s\<rparr>" for s
    by simp
  from H show ?thesis
  proof
    assume "hdr = [sz, 0xff] \<and> sz \<noteq> 0xff \<and> wsize = ucast sz"
    then show ?thesis
      using parse_V1_tunnel [of "mdev\<lparr>rxq := hdr @ inner\<rparr>" sz inner pkt] R E
      by (simp add: o)
  next
    assume "hdr = [0xff, 0xff, jlo, jhi] \<and> wsize = le16toh jlo jhi"
    then show ?thesis
      using parse_V1_jumbo_tunnel [of "mdev\<lparr>rxq := hdr @ inner\<rparr>" jlo jhi inner pkt] R E
      by simp
  qed
qed

text \<open>
  C4, as amended. When the V1 header (two bytes, or four with the JUMBO length) carries
  command byte 255, \<open>parse_V1\<close> returns what \<open>parse_V2\<close> makes of the stream right after
  that header, with any non-negative code turned into \<open>MSP_OK\<close>: no V1 checksum is
  computed or compared. With a whole V2 frame there, the result depends on the V2 CRC
  alone, and the byte after the frame, the wrapper's checksum \<open>ck\<close>, whatever its value,
  is still the first byte of the input queue afterwards: it is not read.
\<close>

theorem tunnel_ignores_V1_checksum:
  assumes R: "2 \<le> read_retries mdev" and E: "rx_events mdev = []"
    and H: "hdr = [sz, 0xff] \<and> sz \<noteq> 0xff \<and> wsize = ucast sz
            \<or> hdr = [0xff, 0xff, jlo, jhi] \<and> wsize = le16toh jlo jhi"
  shows "parse_V1 (mdev\<lparr>rxq := hdr @ inner\<rparr>) pkt =
           (case parse_V2 (mdev\<lparr>rxq := inner\<rparr>)
                   (pkt\<lparr>flag := 0, function_cmd := 0xff, payload_size := wsize\<rparr>) of
              (ret, mdev', pkt') \<Rightarrow> (if ret < 0 then ret else MSP_OK, mdev', pkt'))
       \<and> (unat (le16toh llo lhi) = length p \<and> length p \<le> 1023 \<longrightarrow>
            parse_V1 (mdev\<lparr>rxq := hdr @ f # clo # chi # llo # lhi # p @ crc # ck # rest\<rparr>) pkt =
              (if crc = checksum_crc8_dvb_s2 p (checksum_crc8_dvb_s2 [f, clo, chi, llo, lhi] 0)
               then MSP_OK else MSP_RX_CHECKSUM_MISMATCH,
               store_buf (mdev\<lparr>rxq := ck # rest\<rparr>) (p @ [crc]),
               pkt\<lparr>flag := f, function_cmd := le16toh clo chi, payload_size := le16toh llo lhi,
                   payload := Mdev_buf, checksum := crc\<rparr>))"
proof (intro conjI impI)
  show "parse_V1 (mdev\<lparr>rxq := hdr @ inner\<rparr>) pkt =
           (case parse_V2 (mdev\<lparr>rxq := inner\<rparr>)
                   (pkt\<lparr>flag := 0, function_cmd := 0xff, payload_size := wsize\<rparr>) of
              (ret, mdev', pkt') \<Rightarrow> (if ret < 0 then ret else MSP_OK, mdev', pkt'))"
    by (rule parse_V1_wrapper [OF R E H])
next
  assume a: "unat (le16toh llo lhi) = length p \<and> length p \<le> 1023"
  have v2: "parse_V2 (mdev\<lparr>rxq := f # clo # chi # llo # lhi # p @ crc # ck # rest\<rparr>) q =
              (if crc = checksum_crc8_dvb_s2 p (checksum_crc8_dvb_s2 [f, clo, chi, llo, lhi] 0)
               then MSP_OK else MSP_RX_CHECKSUM_MISMATCH,
               store_buf (mdev\<lparr>rxq := ck # rest\<rparr>) (p @ [crc]),
               q\<lparr>flag := f, function_cmd := le16toh clo chi, payload_size := le16toh llo lhi,
                 payload := Mdev_buf, checksum := crc\<rparr>)" for q
    using parse_V2_frame [of "mdev\<lparr>rxq := f # clo # chi # llo # lhi # p @ crc # ck # rest\<rparr>"
        f clo chi llo lhi p crc "ck # rest" q] R E a
    by simp
  show "parse_V1 (mdev\<lparr>rxq := hdr @ f # clo # chi # llo # lhi # p @ crc # ck # rest\<rparr>) pkt =
              (if crc = checksum_crc8_dvb_s2 p (checksum_crc8_dvb_s2 [f, clo, chi, llo, lhi] 0)
               then MSP_OK else MSP_RX_CHECKSUM_MISMATCH,
               store_buf (mdev\<lparr>rxq := ck # rest\<rparr>) (p @ [crc]),
               pkt\<lparr>flag := f, function_cmd := le16toh clo chi, payload_size := le16toh llo lhi,
                   payload := Mdev_buf, checksum := crc\<rparr>)"
    by (simp add: parse_V1_wrapper [OF R E H] v2 MSP_ERRORS_defs)
qed

theorem tunnel_ignores_V1_checksum_witness:
  "parse_V1 (opened_device\<lparr>rxq := [0x0A, 0xFF, 0x00, 0x64, 0x00, 0x04, 0x00, 1, 2, 3, 4, 0x68, 0x5A]\<rparr>)
       static_response
     = (MSP_OK, store_buf (opened_device\<lparr>rxq := [0x5A]\<rparr>) [1, 2, 3, 4, 0x68],
        \<lparr>version = 0, direction = 0, flag = 0, function_cmd = 0x64, payload_size = 4,
         payload = Mdev_buf, checksum = 0x68\<rparr>)"
proof -
  have h: "[0x0A, 0xff :: u8] = [0x0A, 0xff] \<and> (0x0A :: u8) \<noteq> 0xff
             \<and> (0x0A :: u16) = ucast (0x0A :: u8)
           \<or> [0x0A, 0xff :: u8] = [0xff, 0xff, 0, 0] \<and> (0x0A :: u16) = le16toh 0 0"
    by simp
  have l: "unat (le16toh 0x04 0x00) = length [1, 2, 3, 4 :: u8] \<and> length [1, 2, 3, 4 :: u8] \<le> 1023"
    by (simp add: le16toh_def)
  have "le16toh 0x64 0x00 = 0x64" "le16toh 0x04 0x00 = 0x04"
    by (simp_all add: le16toh_def)
  with tunnel_ignores_V1_checksum [OF opened_device_ready(1,2) h,
      where llo = "0x04" and lhi = "0x00" and p = "[1, 2, 3, 4]" and f = "0x00" and clo = "0x64"
        and chi = "0x00" and crc = "0x68" and ck = "0x5A" and rest = "[]" and pkt = static_response,
      THEN conjunct2]
    l crc_tunnel_example
  show ?thesis
    by (simp add: static_response_def)
qed

text \<open>
  C4, as the claim states it, fails: in the stream \<open>24 4D 3E 0A FF\<close>, a V2 frame of ten
  bytes, then the wrapper's checksum byte \<open>5A\<close>, the parse succeeds and \<open>5A\<close> is still in
  the input queue.
\<close>

theorem tunnel_leaves_V1_checksum_unread:
  "fst (parse_packet
          (opened_device\<lparr>rxq := [0x24, 0x4D, 0x3E, 0x0A, 0xFF,
                                   0x00, 0x64, 0x00, 0x04, 0x00, 1, 2, 3, 4, 0x68, 0x5A]\<rparr>)
          static_response) = MSP_OK
   \<and> rxq (fst (snd (parse_packet
          (opened_device\<lparr>rxq := [0x24, 0x4D, 0x3E, 0x0A, 0xFF,
                                   0x00, 0x64, 0x00, 0x04, 0x00, 1, 2, 3, 4, 0x68, 0x5A]\<rparr>)
          static_response))) = [0x5A]"
proof -
  have h: "[0x0A, 0xff :: u8] = [0x0A, 0xff] \<and> (0x0A :: u8) \<noteq> 0xff
             \<and> (0x0A :: u16) = ucast (0x0A :: u8)
           \<or> [0x0A, 0xff :: u8] = [0xff, 0xff, 0, 0] \<and> (0x0A :: u16) = le16toh 0 0"
    by simp
  have v2: "parse_V2 (opened_device\<lparr>rxq := [0x00, 0x64, 0x00, 0x04, 0x00, 1, 2, 3, 4, 0x68, 0x5A]\<rparr>) q =
              (MSP_OK, store_buf (opened_device\<lparr>rxq := [0x5A]\<rparr>) [1, 2, 3, 4, 0x68],
               q\<lparr>flag := 0, function_cmd := le16toh 0x64 0, payload_size := le16toh 4 0,
                 payload := Mdev_buf, checksum := 0x68\<rparr>)" for q
    using parse_V2_frame [of "opened_device\<lparr>rxq := [0x00, 0x64, 0x00, 0x04, 0x00, 1, 2, 3, 4, 0x68, 0x5A]\<rparr>"
        0 "0x64" 0 4 0 "[1, 2, 3, 4]" "0x68" "[0x5A]" q] crc_tunnel_example
    by (simp add: opened_device_ready le16toh_def)
  have v1: "parse_V1 (opened_device\<lparr>rxq := [0x0A, 0xFF, 0x00, 0x64, 0x00, 0x04, 0x00, 1, 2, 3, 4, 0x68, 0x5A]\<rparr>) q =
              (MSP_OK, store_buf (opened_device\<lparr>rxq := [0x5A]\<rparr>) [1, 2, 3, 4, 0x68],
               q\<lparr>flag := 0, function_cmd := le16toh 0x64 0, payload_size := le16toh 4 0,
                 payload := Mdev_buf, checksum := 0x68\<rparr>)" for q
    using parse_V1_wrapper [OF opened_device_ready(1,2) h,
        where inner = "[0x00, 0x64, 0x00, 0x04, 0x00, 1, 2, 3, 4, 0x68, 0x5A]" and pkt = q]
    by (simp add: v2 MSP_OK_def)
  show ?thesis
    using parse_packet_header [of "opened_device\<lparr>rxq := [0x24, 0x4D, 0x3E, 0x0A, 0xFF,
                                   0x00, 0x64, 0x00, 0x04, 0x00, 1, 2, 3, 4, 0x68, 0x5A]\<rparr>"
        "0x4D" "0x3E" "[0x0A, 0xFF, 0x00, 0x64, 0x00, 0x04, 0x00, 1, 2, 3, 4, 0x68, 0x5A]"
        static_response]
    by (simp add: opened_device_ready v1 MSP_V1_def MSP_DIR_ERROR_def MSP_OK_def store_buf_def)
qed

text \<open>
  C9. For a V2 frame tunnelled in a V1 frame (\<open>'$' 'M'\<close>, a direction byte, a V1 header
  with command byte 255, then the V2 header, payload and CRC), on a device whose reads
  deliver the queued stream: the packet handed back carries version \<open>'M'\<close> and the
  direction byte of the wrapper, and flag, command, payload size, payload and checksum of
  the inner V2 frame; and \<open>parse_V2\<close>, on any device and packet, returns the version and
  direction fields it was given.
\<close>

theorem tunnelled_packet_fields:
  assumes R: "2 \<le> read_retries mdev" and E: "rx_events mdev = []"
    and D: "tcdrain_errno mdev = None"
    and H: "hdr = [sz, 0xff] \<and> sz \<noteq> 0xff \<or> hdr = [0xff, 0xff, jlo, jhi]"
    and len: "unat (le16toh llo lhi) = length p" and cap: "length p \<le> 1023"
  shows "parse_packet
           (mdev\<lparr>rxq := 0x24 # 0x4D # d # hdr @ f # clo # chi # llo # lhi # p @ crc # rest\<rparr>) pkt
         = (if crc \<noteq> checksum_crc8_dvb_s2 p (checksum_crc8_dvb_s2 [f, clo, chi, llo, lhi] 0)
            then MSP_RX_CHECKSUM_MISMATCH
            else if d = 0x21 then MSP_RX_CLIENT_NACK else MSP_OK,
            store_buf (mdev\<lparr>rxq := rest\<rparr>) (p @ [crc]),
            pkt\<lparr>version := 0x4D, direction := d, flag := f, function_cmd := le16toh clo chi,
                payload_size := le16toh llo lhi, payload := Mdev_buf, checksum := crc\<rparr>)
       \<and> packet_payload (store_buf (mdev\<lparr>rxq := rest\<rparr>) (p @ [crc]))
            (pkt\<lparr>version := 0x4D, direction := d, flag := f, function_cmd := le16toh clo chi,
                payload_size := le16toh llo lhi, payload := Mdev_buf, checksum := crc\<rparr>) = Some p
       \<and> version (snd (snd (parse_V2 any_dev any_pkt))) = version any_pkt
       \<and> direction (snd (snd (parse_V2 any_dev any_pkt))) = direction any_pkt"
proof (intro conjI)
  let ?inner = "f # clo # chi # llo # lhi # p @ crc # rest"
  obtain wsize where H': "hdr = [sz, 0xff] \<and> sz \<noteq> 0xff \<and> wsize = ucast sz
            \<or> hdr = [0xff, 0xff, jlo, jhi] \<and> wsize = le16toh jlo jhi"
    using H by auto
  have v2: "parse_V2 (mdev\<lparr>rxq := ?inner\<rparr>) q =
              (if crc = checksum_crc8_dvb_s2 p (checksum_crc8_dvb_s2 [f, clo, chi, llo, lhi] 0)
               then MSP_OK else MSP_RX_CHECKSUM_MISMATCH,
               store_buf (mdev\<lparr>rxq := rest\<rparr>) (p @ [crc]),
               q\<lparr>flag := f, function_cmd := le16toh clo chi, payload_size := le16toh llo lhi,
                 payload := Mdev_buf, checksum := crc\<rparr>)" for q
    using parse_V2_frame [of "mdev\<lparr>rxq := ?inner\<rparr>" f clo chi llo lhi p crc rest q] R E len cap
    by simp
  have v1: "parse_V1 (mdev\<lparr>rxq := hdr @ ?inner\<rparr>) q =
              (if crc = checksum_crc8_dvb_s2 p (checksum_crc8_dvb_s2 [f, clo, chi, llo, lhi] 0)
               then MSP_OK else MSP_RX_CHECKSUM_MISMATCH,
               store_buf (mdev\<lparr>rxq := rest\<rparr>) (p @ [crc]),
               q\<lparr>flag := f, function_cmd := le16toh clo chi, payload_size := le16toh llo lhi,
                 payload := Mdev_buf, checksum := crc\<rparr>)" for q
    by (simp add: parse_V1_wrapper [OF R E H'] v2 MSP_ERRORS_defs)
  show "parse_packet (mdev\<lparr>rxq := 0x24 # 0x4D # d # hdr @ ?inner\<rparr>) pkt
         = (if crc \<noteq> checksum_crc8_dvb_s2 p (checksum_crc8_dvb_s2 [f, clo, chi, llo, lhi] 0)
            then MSP_RX_CHECKSUM_MISMATCH
            else if d = 0x21 then MSP_RX_CLIENT_NACK else MSP_OK,
            store_buf (mdev\<lparr>rxq := rest\<rparr>) (p @ [crc]),
            pkt\<lparr>version := 0x4D, direction := d, flag := f, function_cmd := le16toh clo chi,
                payload_size := le16toh llo lhi, payload := Mdev_buf, checksum := crc\<rparr>)"
    using parse_packet_header [of "mdev\<lparr>rxq := 0x24 # 0x4D # d # hdr @ ?inner\<rparr>"
        "0x4D" d "hdr @ ?inner" pkt] R E D
    by (simp add: v1 MSP_V1_def MSP_DIR_ERROR_def MSP_ERRORS_defs)
  show "packet_payload (store_buf (mdev\<lparr>rxq := rest\<rparr>) (p @ [crc]))
            (pkt\<lparr>version := 0x4D, direction := d, flag := f, function_cmd := le16toh clo chi,
                payload_size := le16toh llo lhi, payload := Mdev_buf, checksum := crc\<rparr>) = Some p"
    by (simp add: packet_payload_def len store_buf_take)
  show "version (snd (snd (parse_V2 any_dev any_pkt))) = version any_pkt"
    using parse_V2_keeps_header [of any_dev any_pkt] by (cases "parse_V2 any_dev any_pkt") simp
  show "direction (snd (snd (parse_V2 any_dev any_pkt))) = direction any_pkt"
    using parse_V2_keeps_header [of any_dev any_pkt] by (cases "parse_V2 any_dev any_pkt") simp
qed

theorem tunnelled_packet_fields_witness:
  "parse_packet
     (opened_device\<lparr>rxq := [0x24, 0x4D, 0x3E, 0x0A, 0xFF,
                              0x07, 0x40, 0x1F, 0x04, 0x00, 1, 2, 3, 4, 0xD9]\<rparr>)
     static_response
   = (MSP_OK, store_buf (opened_device\<lparr>rxq := []\<rparr>) [1, 2, 3, 4, 0xD9],
      \<lparr>version = 0x4D, direction = 0x3E, flag = 0x07, function_cmd = 0x1F40, payload_size = 4,
       payload = Mdev_buf, checksum = 0xD9\<rparr>)"
proof -
  have h: "[0x0A, 0xff :: u8] = [0x0A, 0xff] \<and> (0x0A :: u8) \<noteq> 0xff
           \<or> [0x0A, 0xff :: u8] = [0xff, 0xff, 0, 0]"
    by simp
  have l: "unat (le16toh 0x04 0x00) = length [1, 2, 3, 4 :: u8]"
    by (simp add: le16toh_def)
  have c: "length [1, 2, 3, 4 :: u8] \<le> 1023" by simp
  have crc: "checksum_crc8_dvb_s2 [0x07, 0x40, 0x1F, 0x04, 0x00, 1, 2, 3, 4] 0 = 0xD9"
    by (simp add: CRC8_DVB_S2_LUT_def)
  have le: "le16toh 0x40 0x1F = 0x1F40" "le16toh 0x04 0x00 = 0x04"
    by (simp_all add: le16toh_def)
  from tunnelled_packet_fields [OF opened_device_ready(1-3) h l c,
      where d = "0x3E" and f = "0x07" and clo = "0x40" and chi = "0x1F" and crc = "0xD9"
        and rest = "[]" and pkt = static_response, THEN conjunct1] crc le
  show ?thesis
    by (simp add: static_response_def)
qed

section \<open>NACK\<close>

text \<open>
  C7. Whenever a parse gets through (the output was drained, sync was found, the two
  header bytes were read and name version \<open>'M'\<close> or \<open>'X'\<close>, and the version's parser
  returned a non-negative code, so the checksum matched): \<open>parse_packet\<close> returns
  \<open>MSP_RX_CLIENT_NACK\<close> if the direction byte is \<open>'!'\<close> and \<open>MSP_OK\<close> otherwise, with
  the packet the version's parser decoded, whose version and direction are the header
  bytes; and for the NACK code \<open>throwPacketError\<close> raises \<open>msplink.NACK\<close> carrying that
  packet. In particular \<open>24 4D 21 00 6C 6C\<close> on the opened default device gives
  \<open>MSP_RX_CLIENT_NACK\<close> with the V1 packet of command 108.
\<close>

theorem nack_after_successful_parse:
  assumes drain: "msplink_waituntilsent mdev = (r0, mdev1)" and r0: "0 \<le> r0"
    and sync: "get_sync mdev1 = (r1, mdev2)" and r1: "0 \<le> r1"
    and head: "msplink_read mdev2 2 = (r2, headbytes, mdev3)" and r2: "0 \<le> r2"
    and ver: "headbytes ! 0 = MSP_V1 \<or> headbytes ! 0 = MSP_V2"
    and body: "(if headbytes ! 0 = MSP_V1 then parse_V1 else parse_V2) mdev3
                 (response\<lparr>version := headbytes ! 0, direction := headbytes ! 1\<rparr>)
               = (r3, mdev', response')"
    and r3: "0 \<le> r3"
  shows "parse_packet mdev response
           = (if headbytes ! 1 = MSP_DIR_ERROR then MSP_RX_CLIENT_NACK else MSP_OK,
              mdev', response')
       \<and> version response' = headbytes ! 0 \<and> direction response' = headbytes ! 1
       \<and> throwPacketError MSP_RX_CLIENT_NACK mdev' response'
           = Some (MspExc_NACK (packResponse mdev' response'))
       \<and> parse_packet (opened_device\<lparr>rxq := [0x24, 0x4D, 0x21, 0x00, 0x6C, 0x6C]\<rparr>)
             static_response
           = (MSP_RX_CLIENT_NACK, store_buf (opened_device\<lparr>rxq := []\<rparr>) [0x6C],
              \<lparr>version = 0x4D, direction = 0x21, flag = 0, function_cmd = 0x6C,
               payload_size = 0, payload = Mdev_buf, checksum = 0x6C\<rparr>)"
proof (intro conjI)
  have keep: "version response' = headbytes ! 0 \<and> direction response' = headbytes ! 1"
  proof (cases "headbytes ! 0 = MSP_V1")
    case True
    with body parse_V1_keeps_header [of mdev3 _ r3 mdev' response'] show ?thesis by simp
  next
    case False
    with body parse_V2_keeps_header [of mdev3 _ r3 mdev' response'] show ?thesis by simp
  qed
  then show "version response' = headbytes ! 0" and "direction response' = headbytes ! 1"
    by simp_all
  have n0: "\<not> r0 < 0" "\<not> r1 < 0" "\<not> r2 < 0" "\<not> r3 < 0"
    using r0 r1 r2 r3 by simp_all
  show "parse_packet mdev response
           = (if headbytes ! 1 = MSP_DIR_ERROR then MSP_RX_CLIENT_NACK else MSP_OK,
              mdev', response')"
  proof (cases "headbytes ! 0 = MSP_V1")
    case True
    with body keep n0 show ?thesis
      by (simp add: parse_packet_def drain sync head Let_def)
  next
    case False
    with ver have "headbytes ! 0 = MSP_V2" by simp
    with False body keep n0 show ?thesis
      by (simp add: parse_packet_def drain sync head Let_def)
  qed
  show "throwPacketError MSP_RX_CLIENT_NACK mdev' response'
           = Some (MspExc_NACK (packResponse mdev' response'))"
    by (simp add: throwPacketError_def MSP_ERRORS_defs)
  have v1: "parse_V1 (opened_device\<lparr>rxq := [0x00, 0x6C, 0x6C]\<rparr>) pkt
              = (MSP_OK, store_buf (opened_device\<lparr>rxq := []\<rparr>) [0x6C],
                 pkt\<lparr>flag := 0, function_cmd := 0x6C, payload_size := 0,
                     payload := Mdev_buf, checksum := 0x6C\<rparr>)" for pkt
    using parse_V1_frame [of "opened_device\<lparr>rxq := [0x00, 0x6C, 0x6C]\<rparr>" 0 "0x6C" "[]" "0x6C" "[]" pkt]
    by (simp add: opened_device_ready)
  show "parse_packet (opened_device\<lparr>rxq := [0x24, 0x4D, 0x21, 0x00, 0x6C, 0x6C]\<rparr>)
             static_response
           = (MSP_RX_CLIENT_NACK, store_buf (opened_device\<lparr>rxq := []\<rparr>) [0x6C],
              \<lparr>version = 0x4D, direction = 0x21, flag = 0, function_cmd = 0x6C,
               payload_size = 0, payload = Mdev_buf, checksum = 0x6C\<rparr>)"
    using parse_packet_header [of "opened_device\<lparr>rxq := [0x24, 0x4D, 0x21, 0x00, 0x6C, 0x6C]\<rparr>"
        "0x4D" "0x21" "[0x00, 0x6C, 0x6C]" static_response]
    by (simp add: opened_device_ready v1 MSP_V1_def MSP_DIR_ERROR_def MSP_ERRORS_defs
        static_response_def)
qed

text \<open>
  The stages of the theorem on \<open>24 4D 21 00 6C 6C\<close>, and what \<open>get\<close> then raises: the
  \<open>MspPacketType\<close> with version \<open>'M'\<close>, direction \<open>'!'\<close>, no flag, command 108, an empty
  payload and checksum 108.
\<close>

theorem nack_after_successful_parse_witness:
  "parse_packet (opened_device\<lparr>rxq := [0x24, 0x4D, 0x21, 0x00, 0x6C, 0x6C]\<rparr>) static_response
     = (MSP_RX_CLIENT_NACK, store_buf (opened_device\<lparr>rxq := []\<rparr>) [0x6C],
        \<lparr>version = 0x4D, direction = 0x21, flag = 0, function_cmd = 0x6C,
         payload_size = 0, payload = Mdev_buf, checksum = 0x6C\<rparr>)
   \<and> throwPacketError MSP_RX_CLIENT_NACK (store_buf (opened_device\<lparr>rxq := []\<rparr>) [0x6C])
        \<lparr>version = 0x4D, direction = 0x21, flag = 0, function_cmd = 0x6C,
         payload_size = 0, payload = Mdev_buf, checksum = 0x6C\<rparr>
     = Some (MspExc_NACK \<lparr>py_version = 0x4D, py_direction = 0x21, py_flag = None,
                           py_command = 108, py_payload = Some [], py_checksum = 108\<rparr>)"
proof -
  let ?d = "opened_device\<lparr>rxq := [0x24, 0x4D, 0x21, 0x00, 0x6C, 0x6C]\<rparr>"
  have drain: "msplink_waituntilsent ?d = (MSP_OK, ?d)"
    by (simp add: msplink_waituntilsent_def opened_device_ready)
  have sync: "get_sync ?d = (MSP_OK, opened_device\<lparr>rxq := [0x4D, 0x21, 0x00, 0x6C, 0x6C]\<rparr>)"
    unfolding get_sync_def MAX_SYNC_SEARCH_BYTES_def
    using get_sync_loop_skip [of ?d "[]" 50 "[0x4D, 0x21, 0x00, 0x6C, 0x6C]"]
    by (simp add: opened_device_ready)
  have head: "msplink_read (opened_device\<lparr>rxq := [0x4D, 0x21, 0x00, 0x6C, 0x6C]\<rparr>) 2
                = (2, [0x4D, 0x21], opened_device\<lparr>rxq := [0x00, 0x6C, 0x6C]\<rparr>)"
    using msplink_read_stream [of "opened_device\<lparr>rxq := [0x4D, 0x21, 0x00, 0x6C, 0x6C]\<rparr>" 2]
    by (simp add: opened_device_ready)
  have ver: "[0x4D, 0x21 :: u8] ! 0 = MSP_V1 \<or> [0x4D, 0x21 :: u8] ! 0 = MSP_V2"
    by (simp add: MSP_V1_def)
  have body: "(if [0x4D, 0x21 :: u8] ! 0 = MSP_V1 then parse_V1 else parse_V2)
                 (opened_device\<lparr>rxq := [0x00, 0x6C, 0x6C]\<rparr>)
                 (static_response\<lparr>version := [0x4D, 0x21] ! 0, direction := [0x4D, 0x21] ! 1\<rparr>)
               = (MSP_OK, store_buf (opened_device\<lparr>rxq := []\<rparr>) [0x6C],
                  \<lparr>version = 0x4D, direction = 0x21, flag = 0, function_cmd = 0x6C,
                   payload_size = 0, payload = Mdev_buf, checksum = 0x6C\<rparr>)"
    using parse_V1_frame [of "opened_device\<lparr>rxq := [0x00, 0x6C, 0x6C]\<rparr>" 0 "0x6C" "[]" "0x6C" "[]"]
    by (simp add: opened_device_ready MSP_V1_def static_response_def)
  have z: "(0::int) \<le> MSP_OK" "(0::int) \<le> 2" by (simp_all add: MSP_OK_def)
  from nack_after_successful_parse [OF drain z(1) sync z(1) head z(2) ver body z(1)]
  show ?thesis
    by (simp add: MSP_DIR_ERROR_def packResponse_def packet_payload_def store_buf_def)
qed

section \<open>The encoders' output\<close>

lemma msplink_write_accepted:
  "tx_events mdev = [] \<Longrightarrow> msplink_write mdev data = (MSP_OK, mdev\<lparr>tx := tx mdev @ data\<rparr>)"
  by (simp add: msplink_write_def sys_write_def)

lemma send_V1_plain:
  assumes "tx_events mdev = []" and "unat n \<le> 254"
  shows "send_V1 mdev cmd pl n =
           (MSP_OK,
            mdev\<lparr>tx := tx mdev @ [0x24, 0x4D, 0x3C, ucast n, cmd]
                          @ take (unat n) pl
                          @ [checksum_xor (take (unat n) pl)
                               (ucast n XOR cmd)]\<rparr>)"
  using assms
  by (simp add: send_V1_def msplink_write_accepted Let_def MSP_OK_def)

lemma send_V1_jumbo:
  assumes "tx_events mdev = []" and "254 < unat n"
  shows "send_V1 mdev cmd pl n =
           (MSP_OK,
            mdev\<lparr>tx := tx mdev @ [0x24, 0x4D, 0x3C, 0xff, cmd]
                          @ htole16 n
                          @ take (unat n) pl
                          @ [checksum_xor (take (unat n) pl)
                               (((ucast n XOR cmd) XOR htole16 n ! 0)
                                  XOR htole16 n ! 1)]\<rparr>)"
  using assms
  by (simp add: send_V1_def msplink_write_accepted Let_def MSP_OK_def)

text \<open>
  \<open>send_V2\<close> never gets to its first write: the eighth header byte is stored at
  \<open>buf[7]\<close> of a seven-byte array.
\<close>

lemma send_V2_overruns: "send_V2 mdev flg cmd pl n = Inl Buffer_overrun"
  by (simp add: send_V2_def Let_def htole16_def)

lemma checksum_xor_zeros: "checksum_xor (replicate n 0) c = c"
  by (induction n) simp_all

lemma htole16_300: "htole16 300 = [0x2C, 0x01]"
  by (simp add: htole16_def)

text \<open>
  C3. The claim: for a JUMBO payload the checksum byte \<open>send_V1\<close> emits is the XOR of the
  size byte as emitted (255), the command byte, the two length bytes and the payload; for
  \<open>cmd = 1\<close> and 300 bytes that is the XOR over \<open>FF 01 2C 01\<close> and the payload. The code,
  for \<open>cmd = 1\<close> and 300 zero bytes: it emits \<open>24 4D 3C FF 01 2C 01\<close>, the payload, and
  checksum \<open>00\<close>, where the XOR over \<open>FF 01 2C 01\<close> and the payload is \<open>D3\<close>; and
  \<open>parse_packet\<close>, fed these bytes, answers \<open>MSP_RX_CHECKSUM_MISMATCH\<close>.
\<close>

theorem send_V1_jumbo_checksum_300:
  "send_V1 opened_device 1 (replicate 300 0) 300
     = (MSP_OK, opened_device\<lparr>tx := [0x24, 0x4D, 0x3C, 0xFF, 0x01, 0x2C, 0x01]
                                        @ replicate 300 0 @ [0x00]\<rparr>)
   \<and> checksum_xor ([0xFF, 0x01, 0x2C, 0x01] @ replicate 300 0) 0 = 0xD3
   \<and> fst (parse_packet
            (opened_device\<lparr>rxq := [0x24, 0x4D, 0x3C, 0xFF, 0x01, 0x2C, 0x01]
                                     @ replicate 300 0 @ [0x00]\<rparr>) static_response)
       = MSP_RX_CHECKSUM_MISMATCH"
proof (intro conjI)
  show "send_V1 opened_device 1 (replicate 300 0) 300
     = (MSP_OK, opened_device\<lparr>tx := [0x24, 0x4D, 0x3C, 0xFF, 0x01, 0x2C, 0x01]
                                        @ replicate 300 0 @ [0x00]\<rparr>)"
    using send_V1_jumbo [of opened_device 300 1 "replicate 300 0"]
    by (simp add: opened_device_ready htole16_300 checksum_xor_zeros)
  show "checksum_xor ([0xFF, 0x01, 0x2C, 0x01] @ replicate 300 0) 0 = 0xD3"
    by (simp add: checksum_xor_append checksum_xor_zeros)
  have v1: "parse_V1 (opened_device\<lparr>rxq := [0xFF, 0x01, 0x2C, 0x01] @ replicate 300 0 @ [0x00]\<rparr>) pkt
              = (MSP_RX_CHECKSUM_MISMATCH,
                 store_buf (opened_device\<lparr>rxq := []\<rparr>) (replicate 300 0 @ [0x00]),
                 pkt\<lparr>flag := 0, function_cmd := ucast (0x01 :: u8), payload_size := le16toh 0x2C 0x01,
                     payload := Mdev_buf, checksum := 0x00\<rparr>)" for pkt
    using parse_V1_jumbo_frame [of "opened_device\<lparr>rxq := [0xFF, 0x01, 0x2C, 0x01] @ replicate 300 0 @ [0x00]\<rparr>"
        "0x01" "0x2C" "0x01" "replicate 300 0" "0x00" "[]" pkt]
    by (simp add: opened_device_ready le16toh_def checksum_xor_zeros)
  show "fst (parse_packet
            (opened_device\<lparr>rxq := [0x24, 0x4D, 0x3C, 0xFF, 0x01, 0x2C, 0x01]
                                     @ replicate 300 0 @ [0x00]\<rparr>) static_response)
       = MSP_RX_CHECKSUM_MISMATCH"
    using parse_packet_header [of "opened_device\<lparr>rxq := [0x24, 0x4D, 0x3C, 0xFF, 0x01, 0x2C, 0x01]
                                     @ replicate 300 0 @ [0x00]\<rparr>"
        "0x4D" "0x3C" "[0xFF, 0x01, 0x2C, 0x01] @ replicate 300 0 @ [0x00]" static_response] v1
    by (simp add: opened_device_ready MSP_V1_def MSP_ERRORS_defs)
qed

section \<open>The JUMBO boundary and the buffer bound\<close>

lemma parse_V2_too_big:
  assumes R: "2 \<le> read_retries mdev" and E: "rx_events mdev = []"
    and q: "rxq mdev = f # clo # chi # llo # lhi # body"
    and big: "1024 \<le> unat (le16toh llo lhi)"
  shows "parse_V2 mdev pkt =
           (MSP_OUT_OF_MEMORY, mdev\<lparr>rxq := body\<rparr>,
            pkt\<lparr>flag := f, function_cmd := le16toh clo chi, payload_size := le16toh llo lhi\<rparr>)"
proof -
  have r5: "msplink_read mdev 5 = (5, [f, clo, chi, llo, lhi], mdev\<lparr>rxq := body\<rparr>)"
    using msplink_read_stream [OF R E, of 5] q by simp
  show ?thesis
    unfolding parse_V2_def
    using big
    by (simp add: r5 Let_def READ_BUFFER_SIZE_def)
qed

lemma parse_V1_too_big:
  assumes R: "2 \<le> read_retries mdev" and E: "rx_events mdev = []"
    and q: "rxq mdev = 0xff # cmd # llo # lhi # body"
    and cmd: "cmd \<noteq> 0xff" and big: "1024 \<le> unat (le16toh llo lhi)"
  shows "parse_V1 mdev pkt =
           (MSP_OUT_OF_MEMORY, mdev\<lparr>rxq := body\<rparr>,
            pkt\<lparr>flag := 0, function_cmd := ucast cmd, payload_size := le16toh llo lhi\<rparr>)"
proof -
  have r2: "msplink_read mdev 2 = (2, [0xff, cmd], mdev\<lparr>rxq := llo # lhi # body\<rparr>)"
    using msplink_read_stream [OF R E, of 2] q by simp
  have rl: "msplink_read (mdev\<lparr>rxq := llo # lhi # body\<rparr>) 2
              = (2, [llo, lhi], mdev\<lparr>rxq := body\<rparr>)"
    using msplink_read_stream [of "mdev\<lparr>rxq := llo # lhi # body\<rparr>" 2] R E by simp
  show ?thesis
    unfolding parse_V1_def parse_V1_jumbo_def
    using big cmd
    by (simp add: r2 rl Let_def READ_BUFFER_SIZE_def ucast_u8_u16_eq_ff)
qed

lemma msplink_read_loop_ret:
  "fst (msplink_read_loop len i dev r got) = int len
   \<or> fst (msplink_read_loop len i dev r got) = MSP_RX_FAIL
   \<or> fst (msplink_read_loop len i dev r got) = MSP_SYSCALL_FAIL"
proof (induction i arbitrary: dev r got)
  case 0
  show ?case by simp
next
  case (Suc i)
  show ?case
  proof (cases "sys_read dev r")
    case (Pair res d)
    then show ?thesis using Suc.IH by (cases res) auto
  qed
qed

lemma msplink_read_not_out_of_memory:
  "fst (msplink_read dev len) \<noteq> MSP_OUT_OF_MEMORY"
  using msplink_read_loop_ret [of len "nat (read_retries dev)" dev len "[]"]
  by (auto simp: msplink_read_def MSP_ERRORS_defs)

lemma parse_V2_fits:
  assumes R: "2 \<le> read_retries mdev" and E: "rx_events mdev = []"
    and q: "rxq mdev = f # clo # chi # llo # lhi # body"
    and fits: "unat (le16toh llo lhi) \<le> 1023"
  shows "fst (parse_V2 mdev pkt) \<noteq> MSP_OUT_OF_MEMORY"
proof -
  have r5: "msplink_read mdev 5 = (5, [f, clo, chi, llo, lhi], mdev\<lparr>rxq := body\<rparr>)"
    using msplink_read_stream [OF R E, of 5] q by simp
  show ?thesis
    unfolding parse_V2_def
    using fits msplink_read_not_out_of_memory [of "mdev\<lparr>rxq := body\<rparr>" "Suc (unat (le16toh llo lhi))"]
    by (simp add: r5 Let_def READ_BUFFER_SIZE_def split_beta) (simp add: MSP_ERRORS_defs)
qed

lemma parse_V1_fits:
  assumes R: "2 \<le> read_retries mdev" and E: "rx_events mdev = []"
    and q: "rxq mdev = 0xff # cmd # llo # lhi # body"
    and cmd: "cmd \<noteq> 0xff" and fits: "unat (le16toh llo lhi) \<le> 1023"
  shows "fst (parse_V1 mdev pkt) \<noteq> MSP_OUT_OF_MEMORY"
proof -
  have r2: "msplink_read mdev 2 = (2, [0xff, cmd], mdev\<lparr>rxq := llo # lhi # body\<rparr>)"
    using msplink_read_stream [OF R E, of 2] q by simp
  have rl: "msplink_read (mdev\<lparr>rxq := llo # lhi # body\<rparr>) 2
              = (2, [llo, lhi], mdev\<lparr>rxq := body\<rparr>)"
    using msplink_read_stream [of "mdev\<lparr>rxq := llo # lhi # body\<rparr>" 2] R E by simp
  show ?thesis
    unfolding parse_V1_def parse_V1_jumbo_def
    using fits cmd msplink_read_not_out_of_memory [of "mdev\<lparr>rxq := body\<rparr>" "Suc (unat (le16toh llo lhi))"]
    by (simp add: r2 rl Let_def READ_BUFFER_SIZE_def ucast_u8_u16_eq_ff split_beta)
       (simp add: MSP_ERRORS_defs)
qed

lemma unat_ucast_u16_u8: "unat n \<le> 255 \<Longrightarrow> unat (ucast (n :: u16) :: u8) = unat n"
  by (simp add: unsigned_ucast_eq take_bit_nat_eq_self)

text \<open>
  C6. Encoding (on a line that accepts every write): with a payload length of at most 254
  \<open>send_V1\<close> emits \<open>'$' 'M' '<'\<close>, the length itself as size byte, the command, the
  payload and one checksum byte; with 255 or more it emits size byte 255, the command,
  the length as two little-endian bytes, the payload and one checksum byte. Decoding (on
  a device whose reads deliver the queued stream): a V2 header, or a V1 JUMBO header with
  a command other than 255, that declares 1024 bytes or more gives \<open>MSP_OUT_OF_MEMORY\<close>
  with nothing read after the header; one that declares at most 1023 never gives
  \<open>MSP_OUT_OF_MEMORY\<close>, whatever follows, and when the payload of the declared size and a
  checksum byte follow it is read through and the payload handed back (the code is
  \<open>MSP_OK\<close> or \<open>MSP_RX_CHECKSUM_MISMATCH\<close>), as is every size a plain V1 size byte can
  declare.
\<close>

theorem jumbo_boundary_and_buffer_bound:
  assumes W: "tx_events sdev = []"
    and R: "2 \<le> read_retries mdev" and E: "rx_events mdev = []"
    and cmd: "cmd \<noteq> 0xff"
  shows "(unat n \<le> 254 \<longrightarrow>
            (\<exists>ck. send_V1 sdev c pl n =
                    (MSP_OK, sdev\<lparr>tx := tx sdev @ [0x24, 0x4D, 0x3C, ucast n, c]
                                              @ take (unat n) pl @ [ck]\<rparr>))
            \<and> unat (ucast n :: u8) = unat n)
       \<and> (255 \<le> unat n \<longrightarrow>
            (\<exists>ck. send_V1 sdev c pl n =
                    (MSP_OK, sdev\<lparr>tx := tx sdev @ [0x24, 0x4D, 0x3C, 0xff, c] @ htole16 n
                                              @ take (unat n) pl @ [ck]\<rparr>))
            \<and> le16toh (htole16 n ! 0) (htole16 n ! 1) = n)
       \<and> (1024 \<le> unat (le16toh llo lhi) \<longrightarrow>
            parse_V2 (mdev\<lparr>rxq := f # clo # chi # llo # lhi # body\<rparr>) pkt =
              (MSP_OUT_OF_MEMORY, mdev\<lparr>rxq := body\<rparr>,
               pkt\<lparr>flag := f, function_cmd := le16toh clo chi, payload_size := le16toh llo lhi\<rparr>)
          \<and> parse_V1 (mdev\<lparr>rxq := 0xff # cmd # llo # lhi # body\<rparr>) pkt =
              (MSP_OUT_OF_MEMORY, mdev\<lparr>rxq := body\<rparr>,
               pkt\<lparr>flag := 0, function_cmd := ucast cmd, payload_size := le16toh llo lhi\<rparr>))
       \<and> (unat (le16toh llo lhi) = length p \<and> length p \<le> 1023 \<longrightarrow>
            parse_V2 (mdev\<lparr>rxq := f # clo # chi # llo # lhi # p @ ck # rest\<rparr>) pkt =
              (if ck = checksum_crc8_dvb_s2 p (checksum_crc8_dvb_s2 [f, clo, chi, llo, lhi] 0)
               then MSP_OK else MSP_RX_CHECKSUM_MISMATCH,
               store_buf (mdev\<lparr>rxq := rest\<rparr>) (p @ [ck]),
               pkt\<lparr>flag := f, function_cmd := le16toh clo chi, payload_size := le16toh llo lhi,
                   payload := Mdev_buf, checksum := ck\<rparr>)
          \<and> parse_V1 (mdev\<lparr>rxq := 0xff # cmd # llo # lhi # p @ ck # rest\<rparr>) pkt =
              (if ck = checksum_xor p (checksum_xor [0xff, cmd, llo, lhi] 0)
               then MSP_OK else MSP_RX_CHECKSUM_MISMATCH,
               store_buf (mdev\<lparr>rxq := rest\<rparr>) (p @ [ck]),
               pkt\<lparr>flag := 0, function_cmd := ucast cmd, payload_size := le16toh llo lhi,
                   payload := Mdev_buf, checksum := ck\<rparr>)
          \<and> take (length p) (buf (store_buf (mdev\<lparr>rxq := rest\<rparr>) (p @ [ck]))) = p)
       \<and> (sz \<noteq> 0xff \<and> unat sz = length p \<longrightarrow>
            parse_V1 (mdev\<lparr>rxq := sz # cmd # p @ ck # rest\<rparr>) pkt =
              (if ck = checksum_xor p (checksum_xor [sz, cmd] 0)
               then MSP_OK else MSP_RX_CHECKSUM_MISMATCH,
               store_buf (mdev\<lparr>rxq := rest\<rparr>) (p @ [ck]),
               pkt\<lparr>flag := 0, function_cmd := ucast cmd, payload_size := ucast sz,
                   payload := Mdev_buf, checksum := ck\<rparr>))
       \<and> (unat (le16toh llo lhi) \<le> 1023 \<longrightarrow>
            fst (parse_V2 (mdev\<lparr>rxq := f # clo # chi # llo # lhi # body\<rparr>) pkt)
              \<noteq> MSP_OUT_OF_MEMORY
          \<and> fst (parse_V1 (mdev\<lparr>rxq := 0xff # cmd # llo # lhi # body\<rparr>) pkt)
              \<noteq> MSP_OUT_OF_MEMORY)"
proof (intro conjI impI)
  assume "unat n \<le> 254"
  then show "\<exists>ck. send_V1 sdev c pl n =
                    (MSP_OK, sdev\<lparr>tx := tx sdev @ [0x24, 0x4D, 0x3C, ucast n, c]
                                              @ take (unat n) pl @ [ck]\<rparr>)"
    using send_V1_plain [OF W, of n c pl] by blast
next
  assume "unat n \<le> 254"
  then show "unat (ucast n :: u8) = unat n" by (simp add: unat_ucast_u16_u8)
next
  assume "255 \<le> unat n"
  then have "254 < unat n" by simp
  then show "\<exists>ck. send_V1 sdev c pl n =
                    (MSP_OK, sdev\<lparr>tx := tx sdev @ [0x24, 0x4D, 0x3C, 0xff, c] @ htole16 n
                                              @ take (unat n) pl @ [ck]\<rparr>)"
    using send_V1_jumbo [OF W, of n c pl] by blast
next
  show "le16toh (htole16 n ! 0) (htole16 n ! 1) = n" by (rule le16toh_htole16)
next
  assume big: "1024 \<le> unat (le16toh llo lhi)"
  show "parse_V2 (mdev\<lparr>rxq := f # clo # chi # llo # lhi # body\<rparr>) pkt =
              (MSP_OUT_OF_MEMORY, mdev\<lparr>rxq := body\<rparr>,
               pkt\<lparr>flag := f, function_cmd := le16toh clo chi, payload_size := le16toh llo lhi\<rparr>)"
    using parse_V2_too_big [of "mdev\<lparr>rxq := f # clo # chi # llo # lhi # body\<rparr>"
        f clo chi llo lhi body pkt] R E big by simp
  show "parse_V1 (mdev\<lparr>rxq := 0xff # cmd # llo # lhi # body\<rparr>) pkt =
              (MSP_OUT_OF_MEMORY, mdev\<lparr>rxq := body\<rparr>,
               pkt\<lparr>flag := 0, function_cmd := ucast cmd, payload_size := le16toh llo lhi\<rparr>)"
    using parse_V1_too_big [of "mdev\<lparr>rxq := 0xff # cmd # llo # lhi # body\<rparr>"
        cmd llo lhi body pkt] R E big cmd by simp
next
  assume a: "unat (le16toh llo lhi) = length p \<and> length p \<le> 1023"
  show "parse_V2 (mdev\<lparr>rxq := f # clo # chi # llo # lhi # p @ ck # rest\<rparr>) pkt =
              (if ck = checksum_crc8_dvb_s2 p (checksum_crc8_dvb_s2 [f, clo, chi, llo, lhi] 0)
               then MSP_OK else MSP_RX_CHECKSUM_MISMATCH,
               store_buf (mdev\<lparr>rxq := rest\<rparr>) (p @ [ck]),
               pkt\<lparr>flag := f, function_cmd := le16toh clo chi, payload_size := le16toh llo lhi,
                   payload := Mdev_buf, checksum := ck\<rparr>)"
    using parse_V2_frame [of "mdev\<lparr>rxq := f # clo # chi # llo # lhi # p @ ck # rest\<rparr>"
        f clo chi llo lhi p ck rest pkt] R E a by simp
  show "parse_V1 (mdev\<lparr>rxq := 0xff # cmd # llo # lhi # p @ ck # rest\<rparr>) pkt =
              (if ck = checksum_xor p (checksum_xor [0xff, cmd, llo, lhi] 0)
               then MSP_OK else MSP_RX_CHECKSUM_MISMATCH,
               store_buf (mdev\<lparr>rxq := rest\<rparr>) (p @ [ck]),
               pkt\<lparr>flag := 0, function_cmd := ucast cmd, payload_size := le16toh llo lhi,
                   payload := Mdev_buf, checksum := ck\<rparr>)"
    using parse_V1_jumbo_frame [of "mdev\<lparr>rxq := 0xff # cmd # llo # lhi # p @ ck # rest\<rparr>"
        cmd llo lhi p ck rest pkt] R E a cmd by simp
  show "take (length p) (buf (store_buf (mdev\<lparr>rxq := rest\<rparr>) (p @ [ck]))) = p"
    by (rule store_buf_take)
next
  assume a: "sz \<noteq> 0xff \<and> unat sz = length p"
  show "parse_V1 (mdev\<lparr>rxq := sz # cmd # p @ ck # rest\<rparr>) pkt =
              (if ck = checksum_xor p (checksum_xor [sz, cmd] 0)
               then MSP_OK else MSP_RX_CHECKSUM_MISMATCH,
               store_buf (mdev\<lparr>rxq := rest\<rparr>) (p @ [ck]),
               pkt\<lparr>flag := 0, function_cmd := ucast cmd, payload_size := ucast sz,
                   payload := Mdev_buf, checksum := ck\<rparr>)"
    using parse_V1_frame [of "mdev\<lparr>rxq := sz # cmd # p @ ck # rest\<rparr>" sz cmd p ck rest pkt]
      R E a cmd by simp
next
  assume fits: "unat (le16toh llo lhi) \<le> 1023"
  show "fst (parse_V2 (mdev\<lparr>rxq := f # clo # chi # llo # lhi # body\<rparr>) pkt)
          \<noteq> MSP_OUT_OF_MEMORY"
    using parse_V2_fits [of "mdev\<lparr>rxq := f # clo # chi # llo # lhi # body\<rparr>"
        f clo chi llo lhi body pkt] R E fits by simp
  show "fst (parse_V1 (mdev\<lparr>rxq := 0xff # cmd # llo # lhi # body\<rparr>) pkt)
          \<noteq> MSP_OUT_OF_MEMORY"
    using parse_V1_fits [of "mdev\<lparr>rxq := 0xff # cmd # llo # lhi # body\<rparr>"
        cmd llo lhi body pkt] R E fits cmd by simp
qed


theorem jumbo_boundary_and_buffer_bound_witness:
  "(\<exists>ck. send_V1 opened_device 1 (replicate 254 0) 254 =
            (MSP_OK, opened_device\<lparr>tx := [0x24, 0x4D, 0x3C, 0xFE, 0x01]
                                               @ replicate 254 0 @ [ck]\<rparr>))
   \<and> (\<exists>ck. send_V1 opened_device 1 (replicate 255 0) 255 =
            (MSP_OK, opened_device\<lparr>tx := [0x24, 0x4D, 0x3C, 0xFF, 0x01, 0xFF, 0x00]
                                               @ replicate 255 0 @ [ck]\<rparr>))
   \<and> fst (parse_V2 (opened_device\<lparr>rxq := [0x00, 0x64, 0x00, 0x00, 0x04, 0x55]\<rparr>) static_response)
       = MSP_OUT_OF_MEMORY
   \<and> fst (parse_V1 (opened_device\<lparr>rxq := [0xFF, 0x01, 0x00, 0x04, 0x55]\<rparr>) static_response)
       = MSP_OUT_OF_MEMORY
   \<and> fst (parse_V1 (opened_device\<lparr>rxq := [0xFF, 0x01, 0xFF, 0x03] @ replicate 1023 0 @ [0x02]\<rparr>)
            static_response) = MSP_OK
   \<and> fst (parse_V2 (opened_device\<lparr>rxq := [0x00, 0x64, 0x00, 0xFF, 0x03] @ replicate 1023 0
              @ [checksum_crc8_dvb_s2 (replicate 1023 0)
                   (checksum_crc8_dvb_s2 [0x00, 0x64, 0x00, 0xFF, 0x03] 0)]\<rparr>)
            static_response) = MSP_OK"
proof -
  note t = jumbo_boundary_and_buffer_bound [OF opened_device_ready(4) opened_device_ready(1,2),
      where cmd = "0x01" and c = "0x01"]
  have c: "(0x01 :: u8) \<noteq> 0xff" by simp
  have a: "\<exists>ck. send_V1 opened_device 1 (replicate 254 0) 254 =
            (MSP_OK, opened_device\<lparr>tx := [0x24, 0x4D, 0x3C, 0xFE, 0x01]
                                               @ replicate 254 0 @ [ck]\<rparr>)"
    using t [OF c, where n = 254 and pl = "replicate 254 0", THEN conjunct1]
    by (simp add: opened_device_ready)
  have b: "\<exists>ck. send_V1 opened_device 1 (replicate 255 0) 255 =
            (MSP_OK, opened_device\<lparr>tx := [0x24, 0x4D, 0x3C, 0xFF, 0x01, 0xFF, 0x00]
                                               @ replicate 255 0 @ [ck]\<rparr>)"
    using t [OF c, where n = 255 and pl = "replicate 255 0", THEN conjunct2, THEN conjunct1]
    by (simp add: opened_device_ready htole16_def)
  have big: "unat (le16toh 0x00 0x04) = 1024" by (simp add: le16toh_def)
  have d: "fst (parse_V2 (opened_device\<lparr>rxq := [0x00, 0x64, 0x00, 0x00, 0x04, 0x55]\<rparr>) static_response)
             = MSP_OUT_OF_MEMORY"
    using t [OF c, where llo = "0x00" and lhi = "0x04" and f = "0x00" and clo = "0x64"
        and chi = "0x00" and body = "[0x55]" and pkt = static_response,
        THEN conjunct2, THEN conjunct2, THEN conjunct1] big
    by simp
  have e: "fst (parse_V1 (opened_device\<lparr>rxq := [0xFF, 0x01, 0x00, 0x04, 0x55]\<rparr>) static_response)
             = MSP_OUT_OF_MEMORY"
    using t [OF c, where llo = "0x00" and lhi = "0x04" and body = "[0x55]" and pkt = static_response,
        THEN conjunct2, THEN conjunct2, THEN conjunct1] big
    by simp
  have fits: "unat (le16toh 0xFF 0x03) = length (replicate 1023 (0 :: u8))
              \<and> length (replicate 1023 (0 :: u8)) \<le> 1023"
    by (simp add: le16toh_def)
  have g: "fst (parse_V1 (opened_device\<lparr>rxq := [0xFF, 0x01, 0xFF, 0x03] @ replicate 1023 0 @ [0x02]\<rparr>)
            static_response) = MSP_OK"
    using t [OF c, where llo = "0xFF" and lhi = "0x03" and p = "replicate 1023 0" and ck = "0x02"
        and rest = "[]" and pkt = static_response,
        THEN conjunct2, THEN conjunct2, THEN conjunct2, THEN conjunct1] fits
    by (simp add: checksum_xor_zeros)
  have h: "fst (parse_V2 (opened_device\<lparr>rxq := [0x00, 0x64, 0x00, 0xFF, 0x03] @ replicate 1023 0
              @ [checksum_crc8_dvb_s2 (replicate 1023 0)
                   (checksum_crc8_dvb_s2 [0x00, 0x64, 0x00, 0xFF, 0x03] 0)]\<rparr>)
            static_response) = MSP_OK"
    using t [OF c, where llo = "0xFF" and lhi = "0x03" and f = "0x00" and clo = "0x64"
        and chi = "0x00" and p = "replicate 1023 0"
        and ck = "checksum_crc8_dvb_s2 (replicate 1023 0)
                   (checksum_crc8_dvb_s2 [0x00, 0x64, 0x00, 0xFF, 0x03] 0)"
        and rest = "[]" and pkt = static_response,
        THEN conjunct2, THEN conjunct2, THEN conjunct2, THEN conjunct1] fits
    by simp
  from a b d e g h show ?thesis by blast
qed

section \<open>Encode, then decode\<close>

lemma unat_payload_len: "length p \<le> 1023 \<Longrightarrow> unat (of_nat (length p) :: u16) = length p"
  by (simp add: unat_of_nat)

lemma roundtrip_V1_plain:
  assumes W: "tx_events sdev = []" and T: "tx sdev = []"
    and R: "2 \<le> read_retries mdev" and E: "rx_events mdev = []"
    and D: "tcdrain_errno mdev = None" and len: "length p \<le> 254" and c: "c \<noteq> 0xff"
  shows "fst (send_V1 sdev c p (of_nat (length p))) = MSP_OK"
    and "parse_packet (mdev\<lparr>rxq := tx (snd (send_V1 sdev c p (of_nat (length p))))\<rparr>) pkt
         = (MSP_OK,
            store_buf (mdev\<lparr>rxq := []\<rparr>)
              (p @ [checksum_xor p (checksum_xor [of_nat (length p), c] 0)]),
            pkt\<lparr>version := MSP_V1, direction := MSP_DIR_TOCLIENT, flag := 0,
                function_cmd := ucast c, payload_size := of_nat (length p), payload := Mdev_buf,
                checksum := checksum_xor p (checksum_xor [of_nat (length p), c] 0)\<rparr>)"
proof -
  let ?n = "of_nat (length p) :: u16"
  let ?sz = "of_nat (length p) :: u8"
  let ?ck = "checksum_xor p (checksum_xor [?sz, c] 0)"
  have n: "unat ?n = length p" using len by (simp add: unat_payload_len)
  have usz: "unat ?sz = length p" using len by (simp add: unat_of_nat)
  have "unat (ucast ?n :: u8) = unat ?n"
    using len n by (intro unat_ucast_u16_u8) simp
  then have sz: "(ucast ?n :: u8) = ?sz"
    using usz n by (simp only: word_unat_eq_iff)
  have szff: "?sz \<noteq> 0xff"
  proof
    assume "?sz = 0xff"
    then have "unat ?sz = unat (0xff :: u8)" by simp
    with usz len show False by simp
  qed
  have wide: "(ucast ?sz :: u16) = ?n"
    using usz n by (metis unat_ucast_u8_u16 word_unat_eq_iff)
  have s: "send_V1 sdev c p ?n =
             (MSP_OK, sdev\<lparr>tx := [0x24, 0x4D, 0x3C, ?sz, c] @ p @ [?ck]\<rparr>)"
    using send_V1_plain [OF W, of ?n c p] T len by (simp add: n sz)
  show "fst (send_V1 sdev c p (of_nat (length p))) = MSP_OK"
    by (simp add: s)
  have v1: "parse_V1 (mdev\<lparr>rxq := [?sz, c] @ p @ [?ck]\<rparr>) q
              = (MSP_OK, store_buf (mdev\<lparr>rxq := []\<rparr>) (p @ [?ck]),
                 q\<lparr>flag := 0, function_cmd := ucast c, payload_size := ?n,
                   payload := Mdev_buf, checksum := ?ck\<rparr>)" for q
    using parse_V1_frame [of "mdev\<lparr>rxq := [?sz, c] @ p @ [?ck]\<rparr>" ?sz c p ?ck "[]" q]
      R E szff c usz
    by (simp add: wide)
  show "parse_packet (mdev\<lparr>rxq := tx (snd (send_V1 sdev c p (of_nat (length p))))\<rparr>) pkt
         = (MSP_OK, store_buf (mdev\<lparr>rxq := []\<rparr>) (p @ [?ck]),
            pkt\<lparr>version := MSP_V1, direction := MSP_DIR_TOCLIENT, flag := 0,
                function_cmd := ucast c, payload_size := of_nat (length p), payload := Mdev_buf,
                checksum := ?ck\<rparr>)"
    using parse_packet_header [of "mdev\<lparr>rxq := tx (snd (send_V1 sdev c p ?n))\<rparr>"
        "0x4D" "0x3C" "[?sz, c] @ p @ [?ck]" pkt] R E D v1
    by (simp add: s MSP_V1_def MSP_V2_def MSP_DIR_ERROR_def MSP_DIR_TOCLIENT_def MSP_ERRORS_defs)
qed


text \<open>
  C1, as amended. On a line that accepts every write, and feeding what the encoder
  emitted to a device whose reads deliver the queued stream (at least two read calls
  allowed, see C2): for every 8-bit command other than 255 and payload of at most 254
  bytes, \<open>send_V1\<close> succeeds and \<open>parse_packet\<close> on its output returns \<open>MSP_OK\<close> with
  version \<open>'M'\<close>, direction \<open>'<'\<close>, flag 0, that command and payload, and a received
  checksum equal to the XOR of the size byte, the command byte and the payload. (Command
  255 is the V2 tunnel on receive. Left out, neither promised nor denied: JUMBO lengths,
  the subject of C3, and \<open>send_V2\<close>, which overruns its header array before it emits
  anything.)
\<close>

theorem encode_decode_roundtrip:
  assumes W: "tx_events sdev = []" and T: "tx sdev = []"
    and R: "2 \<le> read_retries mdev" and E: "rx_events mdev = []"
    and D: "tcdrain_errno mdev = None"
    and len: "length p \<le> 254" and c: "c \<noteq> 0xff"
  shows "fst (send_V1 sdev c p (of_nat (length p))) = MSP_OK
       \<and> (case parse_packet (mdev\<lparr>rxq := tx (snd (send_V1 sdev c p (of_nat (length p))))\<rparr>) pkt of
            (ret, mdev', pkt') \<Rightarrow>
              ret = MSP_OK \<and> version pkt' = MSP_V1 \<and> direction pkt' = MSP_DIR_TOCLIENT
              \<and> flag pkt' = 0 \<and> function_cmd pkt' = ucast c
              \<and> unat (payload_size pkt') = length p
              \<and> packet_payload mdev' pkt' = Some p
              \<and> checksum pkt' = checksum_xor p (checksum_xor [of_nat (length p), c] 0))"
proof (intro conjI)
  show "fst (send_V1 sdev c p (of_nat (length p))) = MSP_OK"
    by (rule roundtrip_V1_plain(1) [OF W T R E D len c])
  show "case parse_packet (mdev\<lparr>rxq := tx (snd (send_V1 sdev c p (of_nat (length p))))\<rparr>) pkt of
            (ret, mdev', pkt') \<Rightarrow>
              ret = MSP_OK \<and> version pkt' = MSP_V1 \<and> direction pkt' = MSP_DIR_TOCLIENT
              \<and> flag pkt' = 0 \<and> function_cmd pkt' = ucast c
              \<and> unat (payload_size pkt') = length p
              \<and> packet_payload mdev' pkt' = Some p
              \<and> checksum pkt' = checksum_xor p (checksum_xor [of_nat (length p), c] 0)"
    using len
    by (simp add: roundtrip_V1_plain(2) [OF W T R E D len c] packet_payload_def store_buf_take
        unat_payload_len)
qed

text \<open>
  The spec's scenarios 1 and 2 through the theorem: \<open>send_V1\<close> of command 108 with no
  payload, which emits \<open>24 4D 3C 00 6C 6C\<close>, and of command 200 with the eight bytes
  \<open>DC 05 DC 05 DC 05 DC 05\<close>, each parsed back from the opened default device's own
  output.
\<close>

theorem encode_decode_roundtrip_witness:
  "send_V1 opened_device 108 [] 0
     = (MSP_OK, opened_device\<lparr>tx := [0x24, 0x4D, 0x3C, 0x00, 0x6C, 0x6C]\<rparr>)
   \<and> (case parse_packet (opened_device\<lparr>rxq := tx (snd (send_V1 opened_device 108 [] 0))\<rparr>)
              static_response of
         (ret, mdev', pkt') \<Rightarrow>
           ret = MSP_OK \<and> version pkt' = 0x4D \<and> direction pkt' = 0x3C \<and> flag pkt' = 0
           \<and> function_cmd pkt' = 108 \<and> payload_size pkt' = 0
           \<and> packet_payload mdev' pkt' = Some [] \<and> checksum pkt' = 0x6C)
   \<and> fst (send_V1 opened_device 200 [0xDC, 0x05, 0xDC, 0x05, 0xDC, 0x05, 0xDC, 0x05] 8) = MSP_OK
   \<and> (case parse_packet
              (opened_device\<lparr>rxq := tx (snd (send_V1 opened_device 200
                                        [0xDC, 0x05, 0xDC, 0x05, 0xDC, 0x05, 0xDC, 0x05] 8))\<rparr>)
              static_response of
         (ret, mdev', pkt') \<Rightarrow>
           ret = MSP_OK \<and> version pkt' = 0x4D \<and> direction pkt' = 0x3C \<and> flag pkt' = 0
           \<and> function_cmd pkt' = 200 \<and> payload_size pkt' = 8
           \<and> packet_payload mdev' pkt' = Some [0xDC, 0x05, 0xDC, 0x05, 0xDC, 0x05, 0xDC, 0x05]
           \<and> checksum pkt' = 0xC0)"
proof -
  have l0: "length ([] :: u8 list) \<le> 254" by simp
  have l8: "length [0xDC, 0x05, 0xDC, 0x05, 0xDC, 0x05, 0xDC, 0x05 :: u8] \<le> 254" by simp
  have c108: "(108 :: u8) \<noteq> 0xff" and c200: "(200 :: u8) \<noteq> 0xff" by simp_all
  note r = encode_decode_roundtrip [OF opened_device_ready(4,5) opened_device_ready(1-3)]
  have a: "send_V1 opened_device 108 [] 0
             = (MSP_OK, opened_device\<lparr>tx := [0x24, 0x4D, 0x3C, 0x00, 0x6C, 0x6C]\<rparr>)"
    using send_V1_plain [of opened_device 0 108 "[]"] by (simp add: opened_device_ready)
  have b: "case parse_packet (opened_device\<lparr>rxq := tx (snd (send_V1 opened_device 108 [] 0))\<rparr>)
              static_response of
         (ret, mdev', pkt') \<Rightarrow>
           ret = MSP_OK \<and> version pkt' = 0x4D \<and> direction pkt' = 0x3C \<and> flag pkt' = 0
           \<and> function_cmd pkt' = 108 \<and> payload_size pkt' = 0
           \<and> packet_payload mdev' pkt' = Some [] \<and> checksum pkt' = 0x6C"
    using r [OF l0 c108, where pkt = static_response, THEN conjunct2]
    by (auto simp: MSP_V1_def MSP_DIR_TOCLIENT_def word_unat_eq_iff split: prod.splits)
  have c: "fst (send_V1 opened_device 200 [0xDC, 0x05, 0xDC, 0x05, 0xDC, 0x05, 0xDC, 0x05] 8) = MSP_OK"
    using r [OF l8 c200, THEN conjunct1] by simp
  have d: "case parse_packet
              (opened_device\<lparr>rxq := tx (snd (send_V1 opened_device 200
                                        [0xDC, 0x05, 0xDC, 0x05, 0xDC, 0x05, 0xDC, 0x05] 8))\<rparr>)
              static_response of
         (ret, mdev', pkt') \<Rightarrow>
           ret = MSP_OK \<and> version pkt' = 0x4D \<and> direction pkt' = 0x3C \<and> flag pkt' = 0
           \<and> function_cmd pkt' = 200 \<and> payload_size pkt' = 8
           \<and> packet_payload mdev' pkt' = Some [0xDC, 0x05, 0xDC, 0x05, 0xDC, 0x05, 0xDC, 0x05]
           \<and> checksum pkt' = 0xC0"
    using r [OF l8 c200, where pkt = static_response, THEN conjunct2]
    by (auto simp: MSP_V1_def MSP_DIR_TOCLIENT_def word_unat_eq_iff split: prod.splits)
  from a b c d show ?thesis by blast
qed

text \<open>
  C1, as the claim states it, fails for V1 with command 255 and an empty payload:
  \<open>send_V1\<close> emits \<open>24 4D 3C 00 FF FF\<close>, and the parser, reading command byte 255, looks
  for a V2 header in the one byte that is left and returns \<open>MSP_RX_FAIL\<close>.
\<close>

theorem roundtrip_fails_for_V1_command_255:
  "send_V1 opened_device 0xFF [] 0
     = (MSP_OK, opened_device\<lparr>tx := [0x24, 0x4D, 0x3C, 0x00, 0xFF, 0xFF]\<rparr>)
   \<and> fst (parse_packet (opened_device\<lparr>rxq := tx (snd (send_V1 opened_device 0xFF [] 0))\<rparr>)
            static_response) = MSP_RX_FAIL"
proof -
  have s: "send_V1 opened_device 0xFF [] 0
             = (MSP_OK, opened_device\<lparr>tx := [0x24, 0x4D, 0x3C, 0x00, 0xFF, 0xFF]\<rparr>)"
    using send_V1_plain [of opened_device 0 "0xFF" "[]"]
    by (simp add: opened_device_ready)
  have v2: "parse_V2 (opened_device\<lparr>rxq := [0xFF]\<rparr>) q
              = (MSP_RX_FAIL, opened_device\<lparr>rxq := []\<rparr>, q)" for q
    using msplink_read_short [of "opened_device\<lparr>rxq := [0xFF]\<rparr>" 5]
    by (simp add: parse_V2_def opened_device_eq MSP_ERRORS_defs)
  have v1: "parse_V1 (opened_device\<lparr>rxq := [0x00, 0xFF, 0xFF]\<rparr>) q
              = (MSP_RX_FAIL, opened_device\<lparr>rxq := []\<rparr>,
                 q\<lparr>flag := 0, payload_size := 0, function_cmd := 0xff\<rparr>)" for q
    using parse_V1_tunnel [of "opened_device\<lparr>rxq := [0x00, 0xFF, 0xFF]\<rparr>" 0 "[0xFF]" q]
    by (simp add: opened_device_ready v2 MSP_ERRORS_defs)
  have "fst (parse_packet (opened_device\<lparr>rxq := [0x24, 0x4D, 0x3C, 0x00, 0xFF, 0xFF]\<rparr>)
            static_response) = MSP_RX_FAIL"
    using parse_packet_header [of "opened_device\<lparr>rxq := [0x24, 0x4D, 0x3C, 0x00, 0xFF, 0xFF]\<rparr>"
        "0x4D" "0x3C" "[0x00, 0xFF, 0xFF]" static_response]
    by (simp add: opened_device_ready v1 MSP_V1_def MSP_ERRORS_defs)
  with s show ?thesis by simp
qed

section \<open>What leaves the configuration alone\<close>

lemma configuration_simps [simp]:
  "configuration (mdev\<lparr>rxq := q\<rparr>) = configuration mdev"
  "configuration (mdev\<lparr>rx_events := re\<rparr>) = configuration mdev"
  "configuration (mdev\<lparr>tx := t\<rparr>) = configuration mdev"
  "configuration (mdev\<lparr>tx_events := te\<rparr>) = configuration mdev"
  "configuration (mdev\<lparr>errornum := e\<rparr>) = configuration mdev"
  "configuration (mdev\<lparr>buf := b\<rparr>) = configuration mdev"
  "configuration (mdev\<lparr>fd := n\<rparr>) = configuration mdev"
  "configuration (mdev\<lparr>devname := nm\<rparr>) = configuration mdev"
  by (simp_all add: configuration_def)

lemma sys_read_configuration [simp]:
  "configuration (snd (sys_read mdev n)) = configuration mdev"
  by (simp add: sys_read_def split: list.splits rx_event.splits)

lemma sys_write_configuration [simp]:
  "configuration (snd (sys_write mdev data)) = configuration mdev"
  by (simp add: sys_write_def split: list.splits tx_event.splits)

lemma msplink_write_configuration [simp]:
  "configuration (snd (msplink_write mdev data)) = configuration mdev"
proof (cases "sys_write mdev data")
  case (Pair r d)
  with sys_write_configuration [of mdev data] show ?thesis
    by (simp add: msplink_write_def split: sum.splits)
qed

lemma msplink_read_loop_configuration:
  "configuration (snd (snd (msplink_read_loop len i mdev r got))) = configuration mdev"
proof (induction i arbitrary: mdev r got)
  case 0
  show ?case by simp
next
  case (Suc i)
  show ?case
  proof (cases "sys_read mdev r")
    case (Pair res d)
    with sys_read_configuration [of mdev r] have d: "configuration d = configuration mdev"
      by simp
    show ?thesis
      using Pair d Suc.IH [of d] by (simp split: sum.splits)
  qed
qed

lemma msplink_read_configuration [simp]:
  "configuration (snd (snd (msplink_read mdev len))) = configuration mdev"
  by (simp add: msplink_read_def msplink_read_loop_configuration)

lemma store_buf_configuration [simp]:
  "configuration (store_buf mdev got) = configuration mdev"
  by (simp add: store_buf_def)

lemma msplink_waituntilsent_configuration [simp]:
  "configuration (snd (msplink_waituntilsent mdev)) = configuration mdev"
  by (simp add: msplink_waituntilsent_def split: option.splits)

lemma msplink_clearRxBuffer_configuration [simp]:
  "configuration (snd (msplink_clearRxBuffer mdev)) = configuration mdev"
  by (simp add: msplink_clearRxBuffer_def split: option.splits)

lemma msplink_open_configuration [simp]:
  "configuration (snd (msplink_open mdev)) = configuration mdev"
  by (simp add: msplink_open_def split: option.splits)

lemma get_sync_loop_configuration:
  "configuration (snd (get_sync_loop i mdev)) = configuration mdev"
proof (induction i arbitrary: mdev)
  case 0
  show ?case by simp
next
  case (Suc i)
  show ?case
    using Suc.IH [of "snd (snd (msplink_read mdev 1))"]
    by (simp add: split_beta)
qed

lemma get_sync_configuration [simp]:
  "configuration (snd (get_sync mdev)) = configuration mdev"
  by (simp add: get_sync_def get_sync_loop_configuration)

lemma parse_V2_configuration [simp]:
  "configuration (fst (snd (parse_V2 mdev pkt))) = configuration mdev"
  by (simp add: parse_V2_def Let_def split_beta)

lemma parse_V1_jumbo_configuration:
  "parse_V1_jumbo mdev pkt c = Inl e \<Longrightarrow> configuration (fst (snd e)) = configuration mdev"
  "parse_V1_jumbo mdev pkt c = Inr t \<Longrightarrow> configuration (fst t) = configuration mdev"
  by (auto simp: parse_V1_jumbo_def split_beta split: if_splits)

lemma parse_V1_configuration [simp]:
  "configuration (fst (snd (parse_V1 mdev pkt))) = configuration mdev"
proof -
  let ?b = "fst (snd (msplink_read mdev 2))"
  let ?d1 = "snd (snd (msplink_read mdev 2))"
  let ?pkt1 = "pkt\<lparr>flag := 0, payload_size := ucast (?b ! 0), function_cmd := ucast (?b ! 1)\<rparr>"
  show ?thesis
  proof (cases "parse_V1_jumbo ?d1 ?pkt1 (checksum_xor (take 2 ?b) 0)")
    case (Inl e)
    from parse_V1_jumbo_configuration(1) [OF Inl] Inl show ?thesis
      by (simp add: parse_V1_def Let_def split_beta)
  next
    case (Inr t)
    from parse_V1_jumbo_configuration(2) [OF Inr] Inr show ?thesis
      by (simp add: parse_V1_def Let_def split_beta)
  qed
qed

lemma parse_packet_configuration [simp]:
  "configuration (fst (snd (parse_packet mdev pkt))) = configuration mdev"
  by (simp add: parse_packet_def Let_def split_beta)

lemma send_V1_configuration [simp]:
  "configuration (snd (send_V1 mdev cmd pl n)) = configuration mdev"
  by (simp add: send_V1_def Let_def split_beta)



lemma msplink_close_configuration [simp]:
  "configuration (snd (msplink_close mdev)) = configuration mdev"
  by (simp add: msplink_close_def split: option.splits)

lemma pyMsplinkGet_configuration:
  "configuration (fst (snd (pyMsplinkGet mdev resp ga))) = configuration mdev"
  by (simp add: pyMsplinkGet_def Let_def split_beta send_V2_overruns)

lemma pyMsplinkSet_configuration:
  "configuration (fst (snd (pyMsplinkSet mdev resp sa))) = configuration mdev"
  by (simp add: pyMsplinkSet_def Let_def split_beta send_V2_overruns)

lemma handle_invariant_configuration:
  "configuration d' = configuration d \<Longrightarrow> handle_invariant d' = handle_invariant d"
  by (simp add: configuration_def handle_invariant_def)

lemma mspversion_configuration:
  "configuration d' = configuration d \<Longrightarrow> mspversion d' = mspversion d"
  by (simp add: configuration_def)

lemma pyMsplinkOpen_accepted:
  assumes "fst (pyMsplinkOpen mdev oa) = PyNone"
  shows "device_open mdev = 0 \<and> device_open (snd (pyMsplinkOpen mdev oa)) = 1
       \<and> (mspversion (snd (pyMsplinkOpen mdev oa)) = 1 \<or> mspversion (snd (pyMsplinkOpen mdev oa)) = 2)
       \<and> 1 \<le> read_retries (snd (pyMsplinkOpen mdev oa))"
  using assms
  by (auto simp: pyMsplinkOpen_def Let_def msplink_open_def MSP_ERRORS_defs
      split: if_splits option.splits)

lemma pyMsplinkOpen_rejected:
  assumes "fst (pyMsplinkOpen mdev oa) \<noteq> PyNone"
  shows "device_open (snd (pyMsplinkOpen mdev oa)) = device_open mdev"
  using assms
  by (auto simp: pyMsplinkOpen_def Let_def msplink_open_def MSP_ERRORS_defs
      split: if_splits option.splits)

lemma pyMsplinkOpen_invariant:
  assumes "handle_invariant mdev"
  shows "handle_invariant (snd (pyMsplinkOpen mdev oa))"
proof (cases "fst (pyMsplinkOpen mdev oa) = PyNone")
  case True
  from pyMsplinkOpen_accepted [OF True] show ?thesis by (simp add: handle_invariant_def)
next
  case False
  show ?thesis
  proof (cases "device_open mdev = 0")
    case True
    with pyMsplinkOpen_rejected [OF False] show ?thesis by (simp add: handle_invariant_def)
  next
    case isopen: False
    then have "pyMsplinkOpen mdev oa = (PyErr (Some (MspExc_Exception Already_open)), mdev)"
      by (simp add: pyMsplinkOpen_def)
    with assms show ?thesis by simp
  qed
qed

lemma throwError_not_switch_bug:
  "throwError r d \<noteq> Some (MspExc_Exception Bug_in_pyMsplinkGet)"
  "throwError r d \<noteq> Some (MspExc_Exception Bug_in_pyMsplinkSet)"
  by (simp_all add: throwError_def)

lemma throwPacketError_not_switch_bug:
  "throwPacketError r d p \<noteq> Some (MspExc_Exception Bug_in_pyMsplinkGet)"
  "throwPacketError r d p \<noteq> Some (MspExc_Exception Bug_in_pyMsplinkSet)"
  by (simp_all add: throwPacketError_def throwError_not_switch_bug)

lemma pyMsplinkGet_no_switch_bug:
  assumes "mspversion mdev = 1 \<or> mspversion mdev = 2"
  shows "fst (pyMsplinkGet mdev resp ga) \<noteq> PyErr (Some (MspExc_Exception Bug_in_pyMsplinkGet))"
proof -
  have "mspversion (snd (msplink_clearRxBuffer mdev)) = mspversion mdev"
    by (rule mspversion_configuration) simp
  with assms show ?thesis
    by (auto simp: pyMsplinkGet_def Let_def split_beta throwError_not_switch_bug
        throwPacketError_not_switch_bug send_V2_overruns)
qed

lemma pyMsplinkSet_no_switch_bug:
  assumes "mspversion mdev = 1 \<or> mspversion mdev = 2"
  shows "fst (pyMsplinkSet mdev resp sa) \<noteq> PyErr (Some (MspExc_Exception Bug_in_pyMsplinkSet))"
proof -
  have "mspversion (snd (msplink_clearRxBuffer mdev)) = mspversion mdev"
    by (rule mspversion_configuration) simp
  with assms show ?thesis
    by (auto simp: pyMsplinkSet_def Let_def split_beta throwError_not_switch_bug
        throwPacketError_not_switch_bug send_V2_overruns)
qed


text \<open>
  C10. The invariant "\<open>device_open = 1\<close> implies \<open>mspversion\<close> is 1 or 2 and
  \<open>read_retries \<ge> 1\<close>" holds of the device \<open>PyInit_msplink\<close> sets up, and from any state
  where it holds it holds again after \<open>open\<close>, \<open>close\<close>, \<open>get\<close> and \<open>set\<close>, whatever
  the arguments and whatever the line does. An \<open>open\<close> that returns \<open>None\<close> started from a
  closed device and leaves \<open>device_open = 1\<close> with both fields valid; an \<open>open\<close> that
  raises leaves \<open>device_open\<close> as it was (0 for a closed device). While the device is
  open, \<open>get\<close> and \<open>set\<close> never raise the exceptions of the \<open>default\<close> branch of their
  version switch.
\<close>

theorem handle_invariant_preserved:
  assumes inv: "handle_invariant mdev"
  shows "handle_invariant (PyInit_msplink storage)
       \<and> handle_invariant (snd (pyMsplinkOpen mdev oa))
       \<and> handle_invariant (snd (snd (pyMsplinkClose mdev)))
       \<and> handle_invariant (fst (snd (pyMsplinkGet mdev resp ga)))
       \<and> handle_invariant (fst (snd (pyMsplinkSet mdev resp sa)))
       \<and> (fst (pyMsplinkOpen mdev oa) = PyNone \<longrightarrow>
            device_open mdev = 0 \<and> device_open (snd (pyMsplinkOpen mdev oa)) = 1
            \<and> (mspversion (snd (pyMsplinkOpen mdev oa)) = 1
                \<or> mspversion (snd (pyMsplinkOpen mdev oa)) = 2)
            \<and> 1 \<le> read_retries (snd (pyMsplinkOpen mdev oa)))
       \<and> (fst (pyMsplinkOpen mdev oa) \<noteq> PyNone \<longrightarrow>
            device_open (snd (pyMsplinkOpen mdev oa)) = device_open mdev)
       \<and> (device_open mdev = 1 \<longrightarrow>
            fst (pyMsplinkGet mdev resp ga) \<noteq> PyErr (Some (MspExc_Exception Bug_in_pyMsplinkGet))
            \<and> fst (pyMsplinkSet mdev resp sa) \<noteq> PyErr (Some (MspExc_Exception Bug_in_pyMsplinkSet)))"
proof (intro conjI impI)
  show "handle_invariant (PyInit_msplink storage)"
    by (simp add: handle_invariant_def PyInit_msplink_def)
  show "handle_invariant (snd (pyMsplinkOpen mdev oa))"
    by (rule pyMsplinkOpen_invariant [OF inv])
  show "handle_invariant (snd (snd (pyMsplinkClose mdev)))"
  proof -
    have "configuration (snd (snd (pyMsplinkClose mdev)))
            = configuration (mdev\<lparr>devname := None, device_open := 0\<rparr>)"
      by (simp add: pyMsplinkClose_def Let_def split_beta)
    then show ?thesis by (simp add: configuration_def handle_invariant_def)
  qed
  show "handle_invariant (fst (snd (pyMsplinkGet mdev resp ga)))"
    using inv handle_invariant_configuration [OF pyMsplinkGet_configuration] by simp
  show "handle_invariant (fst (snd (pyMsplinkSet mdev resp sa)))"
    using inv handle_invariant_configuration [OF pyMsplinkSet_configuration] by simp
next
  assume ok: "fst (pyMsplinkOpen mdev oa) = PyNone"
  from pyMsplinkOpen_accepted [OF ok]
  show "device_open mdev = 0" and "device_open (snd (pyMsplinkOpen mdev oa)) = 1"
    and "mspversion (snd (pyMsplinkOpen mdev oa)) = 1 \<or> mspversion (snd (pyMsplinkOpen mdev oa)) = 2"
    and "1 \<le> read_retries (snd (pyMsplinkOpen mdev oa))"
    by simp_all
next
  assume "fst (pyMsplinkOpen mdev oa) \<noteq> PyNone"
  then show "device_open (snd (pyMsplinkOpen mdev oa)) = device_open mdev"
    by (rule pyMsplinkOpen_rejected)
next
  assume "device_open mdev = 1"
  with inv have v: "mspversion mdev = 1 \<or> mspversion mdev = 2"
    by (simp add: handle_invariant_def)
  show "fst (pyMsplinkGet mdev resp ga) \<noteq> PyErr (Some (MspExc_Exception Bug_in_pyMsplinkGet))"
    by (rule pyMsplinkGet_no_switch_bug [OF v])
  show "fst (pyMsplinkSet mdev resp sa) \<noteq> PyErr (Some (MspExc_Exception Bug_in_pyMsplinkSet))"
    by (rule pyMsplinkSet_no_switch_bug [OF v])
qed

text \<open>
  On the opened default device the invariant holds with \<open>device_open = 1\<close>; a \<open>get\<close> and
  a \<open>close\<close> keep it. On the freshly initialised device, \<open>open\<close> with
  \<open>msp_version = 5\<close> is rejected with \<open>ValueError\<close>, the device stays closed (though the
  5 stays stored), and the default \<open>open\<close> gives the opened default device.
\<close>

theorem handle_invariant_preserved_witness:
  "handle_invariant opened_device \<and> device_open opened_device = 1
   \<and> handle_invariant
        (fst (snd (pyMsplinkGet opened_device static_response
                     \<lparr>get_parse_ok = True, get_command = 108, get_flag = 0\<rparr>)))
   \<and> fst (pyMsplinkGet opened_device static_response
              \<lparr>get_parse_ok = True, get_command = 108, get_flag = 0\<rparr>)
       \<noteq> PyErr (Some (MspExc_Exception Bug_in_pyMsplinkGet))
   \<and> handle_invariant (snd (snd (pyMsplinkClose opened_device)))
   \<and> pyMsplinkOpen (PyInit_msplink static_storage) (default_open_args\<lparr>arg_msp_version := Some 5\<rparr>)
       = (PyErr (Some (PyExc_ValueError (Bad_msp_version 5))),
          PyInit_msplink static_storage\<lparr>mspversion := 5, devname := Some ''/dev/ttyACM0''\<rparr>)
   \<and> device_open (snd (pyMsplinkOpen (PyInit_msplink static_storage)
                           (default_open_args\<lparr>arg_msp_version := Some 5\<rparr>))) = 0
   \<and> fst (pyMsplinkOpen (PyInit_msplink static_storage) default_open_args) = PyNone
   \<and> configuration (snd (pyMsplinkOpen (PyInit_msplink static_storage) default_open_args))
       = (1, 1, 3)"
proof -
  have i: "handle_invariant opened_device"
    by (simp add: handle_invariant_def opened_device_eq)
  have o: "device_open opened_device = 1" by (simp add: opened_device_eq)
  note t = handle_invariant_preserved [OF i,
      where resp = static_response
        and ga = "\<lparr>get_parse_ok = True, get_command = 108, get_flag = 0\<rparr>"]
  have g: "handle_invariant
        (fst (snd (pyMsplinkGet opened_device static_response
                     \<lparr>get_parse_ok = True, get_command = 108, get_flag = 0\<rparr>)))"
    using t by blast
  have b: "fst (pyMsplinkGet opened_device static_response
              \<lparr>get_parse_ok = True, get_command = 108, get_flag = 0\<rparr>)
       \<noteq> PyErr (Some (MspExc_Exception Bug_in_pyMsplinkGet))"
    using t o by blast
  have c: "handle_invariant (snd (snd (pyMsplinkClose opened_device)))"
    using t by blast
  have i0: "handle_invariant (PyInit_msplink static_storage)"
    by (simp add: handle_invariant_def PyInit_msplink_def static_storage_def)
  have r: "pyMsplinkOpen (PyInit_msplink static_storage) (default_open_args\<lparr>arg_msp_version := Some 5\<rparr>)
       = (PyErr (Some (PyExc_ValueError (Bad_msp_version 5))),
          PyInit_msplink static_storage\<lparr>mspversion := 5, devname := Some ''/dev/ttyACM0''\<rparr>)"
    by (simp add: pyMsplinkOpen_def PyInit_msplink_def static_storage_def default_open_args_def
        Let_def)
  have r0: "device_open (snd (pyMsplinkOpen (PyInit_msplink static_storage)
                           (default_open_args\<lparr>arg_msp_version := Some 5\<rparr>))) = 0"
    using handle_invariant_preserved [OF i0,
        where oa = "default_open_args\<lparr>arg_msp_version := Some 5\<rparr>"] r
    by (simp add: PyInit_msplink_def)
  have a: "fst (pyMsplinkOpen (PyInit_msplink static_storage) default_open_args) = PyNone"
    by (simp add: pyMsplinkOpen_def PyInit_msplink_def static_storage_def default_open_args_def
        Let_def msplink_open_def MSP_ERRORS_defs MSP_RETRY_DEFAULT_def)
  have k: "configuration (snd (pyMsplinkOpen (PyInit_msplink static_storage) default_open_args))
       = (1, 1, 3)"
    using opened_device_eq by (simp add: opened_device_def configuration_def)
  from i o g b c r r0 a k show ?thesis by blast
qed

end
